theory Spec2Isabelle
  imports Complex_Main "HOL-Library.Multiset" "HOL-Library.Log_Nat" "HOL-Library.Product_Lexorder"
begin

section \<open>Python exceptions\<close>

text \<open>
  The notebooks contain no \<^verbatim>\<open>try\<close> statement. Every exception a library call raises is
  a value of this type; a cell that stops on an exception answers \<open>Inl\<close>.
\<close>

datatype error =
    FileNotFoundError
  | IsADirectoryError
  | NotADirectoryError
  | OSError
  | KeyError
  | IndexError
  | TypeError
  | ValueError
  | ZeroDivisionError
  | NameError

section \<open>Paths and the file system\<close>

text \<open>
  A path string is resolved against the working directory into its list of components;
  empty components and \<^verbatim>\<open>.\<close> are dropped, as the operating system does. The notebooks
  only use relative paths without \<^verbatim>\<open>..\<close>, which is therefore not interpreted.
\<close>

type_synonym path = "string list"

fun split_sep :: "char \<Rightarrow> string \<Rightarrow> string list" where
  "split_sep s [] = [[]]"
| "split_sep s (c # cs) =
     (if c = s then [] # split_sep s cs
      else (case split_sep s cs of
              w # ws \<Rightarrow> (c # w) # ws
            | [] \<Rightarrow> [[c]]))"

definition resolve :: "string \<Rightarrow> path" where
  "resolve p = filter (\<lambda>c. c \<noteq> [] \<and> c \<noteq> ''.'') (split_sep CHR ''/'' p)"

text \<open>\<^verbatim>\<open>os.path.basename(p)\<close> is \<^verbatim>\<open>p[p.rfind('/') + 1:]\<close>.\<close>

definition basename :: "string \<Rightarrow> string" where
  "basename p = rev (takeWhile (\<lambda>c. c \<noteq> CHR ''/'') (rev p))"

text \<open>
  The file system maps a resolved path to a regular file with its contents or to a
  directory. The working directory is the empty path.
\<close>

datatype 'a node = File 'a | Dir

type_synonym 'a filesystem = "path \<rightharpoonup> 'a node"

definition is_dir :: "'a filesystem \<Rightarrow> path \<Rightarrow> bool" where
  "is_dir fs p \<longleftrightarrow> p = [] \<or> fs p = Some Dir"

definition is_file :: "'a filesystem \<Rightarrow> path \<Rightarrow> bool" where
  "is_file fs p \<longleftrightarrow> (case fs p of Some (File c) \<Rightarrow> True | _ \<Rightarrow> False)"

definition beneath :: "path \<Rightarrow> path \<Rightarrow> bool" where
  "beneath d p \<longleftrightarrow> take (length d) p = d"

text \<open>
  The error of a path that leads through \<open>q\<close> when \<open>q\<close> is not a directory: \<open>q\<close> or a
  component before it may be a regular file. The error of a path that names nothing is
  that of the directory it lies in.
\<close>

definition walk_error :: "'a filesystem \<Rightarrow> path \<Rightarrow> error" where
  "walk_error fs q =
     (if list_ex (\<lambda>k. is_file fs (take k q)) [1..<Suc (length q)]
      then NotADirectoryError else FileNotFoundError)"

definition missing :: "'a filesystem \<Rightarrow> path \<Rightarrow> error" where
  "missing fs p = walk_error fs (butlast p)"

text \<open>
  A path string that ends in a separator or in the component \<^verbatim>\<open>.\<close> can only name a
  directory. The last component of a path string is looked up in its parent directory,
  which for a string that ends in \<^verbatim>\<open>.\<close> is the directory the string names.
\<close>

definition names_dir :: "string \<Rightarrow> bool" where
  "names_dir p \<longleftrightarrow> basename p = [] \<or> basename p = ''.''"

definition parent :: "string \<Rightarrow> path" where
  "parent p = (if basename p = ''.'' then resolve p else butlast (resolve p))"

text \<open>
  \<^verbatim>\<open>os.rename(src, dst)\<close> with the semantics of \<^verbatim>\<open>rename(2)\<close> on Linux, in the order in
  which the system call decides: the parent directories of both names are looked up; a
  name that is the working directory or ends in \<^verbatim>\<open>.\<close> is busy; the source must exist; a
  regular file takes no name that ends in a separator; renaming a file to itself does
  nothing; neither name may lie beneath the other; an existing regular file at the
  destination is replaced without notice, an existing directory is not replaced by a
  file, nor a file by a directory, nor a directory that is not empty; a directory moves
  with everything under it. On an error nothing has changed.
\<close>

definition os_rename :: "'a filesystem \<Rightarrow> string \<Rightarrow> string \<Rightarrow> error + 'a filesystem" where
  "os_rename fs src dst =
     (let s = resolve src; d = resolve dst in
      if src = [] \<or> dst = [] then Inl FileNotFoundError
      else if \<not> is_dir fs (parent src) then Inl (walk_error fs (parent src))
      else if \<not> is_dir fs (parent dst) then Inl (walk_error fs (parent dst))
      else if s = [] \<or> d = [] \<or> basename src = ''.'' \<or> basename dst = ''.'' then Inl OSError
      else (case fs s of
        None \<Rightarrow> Inl FileNotFoundError
      | Some (File c) \<Rightarrow>
          if basename src = [] \<or> basename dst = [] then Inl NotADirectoryError
          else if s = d then Inr fs
          else if beneath d s then Inl OSError
          else if fs d = Some Dir then Inl IsADirectoryError
          else Inr (fs(s := None, d \<mapsto> File c))
      | Some Dir \<Rightarrow>
          if s = d then Inr fs
          else if beneath s d \<or> beneath d s then Inl OSError
          else if is_file fs d then Inl NotADirectoryError
          else if \<exists>q \<in> dom fs. q \<noteq> d \<and> beneath d q then Inl OSError
          else Inr (\<lambda>p. if beneath d p then fs (s @ drop (length d) p)
                         else if beneath s p then None else fs p)))"

text \<open>
  \<^verbatim>\<open>shutil.rmtree(path)\<close> for a directory below the working directory: the directory and
  everything under it is removed.
\<close>

definition shutil_rmtree :: "'a filesystem \<Rightarrow> string \<Rightarrow> error + 'a filesystem" where
  "shutil_rmtree fs p =
     (let d = resolve p in
      if p = [] then Inl FileNotFoundError
      else if d = [] then Inl OSError
      else (case fs d of
        Some Dir \<Rightarrow> Inr (\<lambda>q. if beneath d q then None else fs q)
      | Some (File c) \<Rightarrow> Inl NotADirectoryError
      | None \<Rightarrow> Inl (missing fs d)))"

section \<open>Statements that run in sequence\<close>

text \<open>
  A step that changes the state \<open>'s\<close> either completes with the new state or stops on an
  exception. The state in which it stopped is kept beside the exception: Python does not
  undo what a statement did before it raised.
\<close>

type_synonym 's outcome = "(error \<times> 's) + 's"

text \<open>A library call that leaves the state as it was when it raises.\<close>

definition call :: "'s \<Rightarrow> error + 's \<Rightarrow> 's outcome" where
  "call s r = (case r of Inl e \<Rightarrow> Inl (e, s) | Inr s' \<Rightarrow> Inr s')"

text \<open>\<^verbatim>\<open>for x in xs: body\<close>: the first exception ends the loop.\<close>

fun for_each :: "('s \<Rightarrow> 'x \<Rightarrow> 's outcome) \<Rightarrow> 'x list \<Rightarrow> 's \<Rightarrow> 's outcome" where
  "for_each body [] s = Inr s"
| "for_each body (x # xs) s =
     (case body s x of
        Inl r \<Rightarrow> Inl r
      | Inr s' \<Rightarrow> for_each body xs s')"

section \<open>Housekeeping cells\<close>

text \<open>
  A row of the table that \<^verbatim>\<open>Observations.download_products\<close> returns. The cells read the
  column \<^verbatim>\<open>Local Path\<close> only.
\<close>

record dl_row =
  Local_Path :: string
  Status :: string

text \<open>
  The body of the loop over a download table:
  \<^verbatim>\<open>
  oldfname = row['Local Path']
  newfname = os.path.basename(oldfname)
  os.rename(oldfname, newfname)
  \<close>
\<close>

definition move_row :: "'a filesystem \<Rightarrow> dl_row \<Rightarrow> 'a filesystem outcome" where
  "move_row fs row =
     (let oldfname = Local_Path row;
          newfname = basename oldfname
      in call fs (os_rename fs oldfname newfname))"

text \<open>
  The housekeeping cell of the pixel-area-map notebook:
  \<^verbatim>\<open>
  for row in dl_table:
      ...
  shutil.rmtree('mastDownload')
  \<close>
\<close>

definition housekeeping_pam :: "'a filesystem \<Rightarrow> dl_row list \<Rightarrow> 'a filesystem outcome" where
  "housekeeping_pam fs dl_table =
     (case for_each move_row dl_table fs of
        Inl r \<Rightarrow> Inl r
      | Inr fs1 \<Rightarrow> call fs1 (shutil_rmtree fs1 ''mastDownload''))"

text \<open>
  The housekeeping cell of the dark-analysis notebook:
  \<^verbatim>\<open>
  for dl_table in [sci_dl_table, drk_dl_table]:
      for row in dl_table:
          ...
  shutil.rmtree('mastDownload/')
  \<close>
\<close>

definition housekeeping_dark ::
  "'a filesystem \<Rightarrow> dl_row list \<Rightarrow> dl_row list \<Rightarrow> 'a filesystem outcome" where
  "housekeeping_dark fs sci_dl_table drk_dl_table =
     (case for_each (\<lambda>fs' dl_table. for_each move_row dl_table fs')
             [sci_dl_table, drk_dl_table] fs of
        Inl r \<Rightarrow> Inl r
      | Inr fs1 \<Rightarrow> call fs1 (shutil_rmtree fs1 ''mastDownload/''))"

text \<open>
  A row of which the local path names a regular file in the download tree.
\<close>

definition downloaded :: "'a filesystem \<Rightarrow> dl_row \<Rightarrow> bool" where
  "downloaded fs row \<longleftrightarrow>
     is_file fs (resolve (Local_Path row)) \<and>
     (\<exists>rest. resolve (Local_Path row) = ''mastDownload'' # rest \<and> rest \<noteq> [])"

text \<open>
  A downloaded row that the loop can move: its file lies in a directory, its path ends in
  the file's name, and the working directory holds no directory of that name.
\<close>

definition movable :: "'a filesystem \<Rightarrow> dl_row \<Rightarrow> bool" where
  "movable fs row \<longleftrightarrow>
     downloaded fs row \<and>
     is_dir fs (butlast (resolve (Local_Path row))) \<and>
     last (resolve (Local_Path row)) = basename (Local_Path row) \<and>
     fs [basename (Local_Path row)] \<noteq> Some Dir"


section \<open>Python floats\<close>

text \<open>
  A Python \<^verbatim>\<open>float\<close> is an IEEE 754 binary64 number: a finite value, an infinity or
  not-a-number. A finite value is kept as the rational it denotes; the sign of zero is
  not kept. Arithmetic rounds the exact result to the nearest binary64 number, ties to
  the even significand, and a result of magnitude \<open>2 ^ 1024\<close> or more becomes an infinity.
\<close>

datatype pyfloat = Fin rat | PInf | NInf | NaN

definition ilog2 :: "rat \<Rightarrow> int" where
  "ilog2 x = (let (n, d) = quotient_of x; k = bitlen n - bitlen d
              in if 2 powi k \<le> x then k else k - 1)"

definition round_half_even :: "rat \<Rightarrow> int" where
  "round_half_even t =
     (let f = \<lfloor>t\<rfloor>; r = t - of_int f
      in if r < 1 / 2 then f
         else if 1 / 2 < r then f + 1
         else if even f then f else f + 1)"

text \<open>The exponent of the last place of a binary64 number near \<open>x\<close>, for \<open>x \<noteq> 0\<close>.\<close>

definition quantum :: "rat \<Rightarrow> int" where
  "quantum x = max (ilog2 \<bar>x\<bar> - 52) (- 1074)"

text \<open>The nearest multiple of the quantum, ties to the even multiple.\<close>

definition rnd :: "rat \<Rightarrow> rat" where
  "rnd x = of_int (round_half_even (x / 2 powi quantum x)) * 2 powi quantum x"

definition overflow :: rat where
  "overflow = 2 ^ 1024"

definition rne :: "rat \<Rightarrow> pyfloat" where
  "rne x =
     (if x = 0 then Fin 0
      else if overflow \<le> \<bar>rnd x\<bar> then (if 0 < x then PInf else NInf)
      else Fin (rnd x))"

text \<open>The rationals that are binary64 numbers: rounding leaves them as they are.\<close>

definition is_double :: "rat \<Rightarrow> bool" where
  "is_double x \<longleftrightarrow> rne x = Fin x"

fun fadd :: "pyfloat \<Rightarrow> pyfloat \<Rightarrow> pyfloat" where
  "fadd NaN y = NaN"
| "fadd x NaN = NaN"
| "fadd PInf NInf = NaN"
| "fadd NInf PInf = NaN"
| "fadd PInf y = PInf"
| "fadd x PInf = PInf"
| "fadd NInf y = NInf"
| "fadd x NInf = NInf"
| "fadd (Fin a) (Fin b) = rne (a + b)"

text \<open>Division by a divisor other than zero; Python raises on zero before dividing.\<close>

fun fdiv :: "pyfloat \<Rightarrow> pyfloat \<Rightarrow> pyfloat" where
  "fdiv NaN y = NaN"
| "fdiv x NaN = NaN"
| "fdiv (Fin a) (Fin b) = rne (a / b)"
| "fdiv (Fin a) y = Fin 0"
| "fdiv PInf (Fin b) = (if 0 < b then PInf else NInf)"
| "fdiv NInf (Fin b) = (if 0 < b then NInf else PInf)"
| "fdiv x y = NaN"

text \<open>The comparison \<^verbatim>\<open><=\<close> of two floats; it is false when either is not-a-number.\<close>

fun fle :: "pyfloat \<Rightarrow> pyfloat \<Rightarrow> bool" where
  "fle NaN y = False"
| "fle x NaN = False"
| "fle (Fin a) (Fin b) = (a \<le> b)"
| "fle NInf y = True"
| "fle x PInf = True"
| "fle x y = False"

section \<open>Image files\<close>

text \<open>
  A header card holds a character string or a number. A number is kept as the float it
  reads as: the temperature and exposure-time cards are reals. Logical cards and cards
  without a value are not modelled. A keyword is looked up without regard to case, so
  a header is a map from the upper-case keyword.
\<close>

datatype hval = Str string | Num pyfloat

definition upper_char :: "char \<Rightarrow> char" where
  "upper_char c =
     (case map_of (zip ''abcdefghijklmnopqrstuvwxyz'' ''ABCDEFGHIJKLMNOPQRSTUVWXYZ'') c of
        Some u \<Rightarrow> u
      | None \<Rightarrow> c)"

definition upper :: "string \<Rightarrow> string" where
  "upper k = map upper_char k"

text \<open>
  An image is a two-dimensional array, a list of rows of equal length. A header-data unit
  has a header and may have an array; a file is a list of header-data units, the primary
  one first.
\<close>

type_synonym 'p ndarray = "'p list list"

record 'p hdu =
  header :: "string \<rightharpoonup> hval"
  data :: "'p ndarray option"

type_synonym 'p hdulist = "'p hdu list"

type_synonym 'p disk = "'p hdulist filesystem"

text \<open>
  \<^verbatim>\<open>fits.open(name)\<close> refuses the empty name before it asks the operating system.
\<close>

definition fits_open :: "'p disk \<Rightarrow> string \<Rightarrow> error + 'p hdulist" where
  "fits_open fs name =
     (if name = [] then Inl ValueError
      else if resolve name = [] then Inl IsADirectoryError
      else (case fs (resolve name) of
        Some (File hdul) \<Rightarrow> if names_dir name then Inl NotADirectoryError else Inr hdul
      | Some Dir \<Rightarrow> Inl IsADirectoryError
      | None \<Rightarrow> Inl (missing fs (resolve name))))"

text \<open>\<^verbatim>\<open>fits.getval(filename, keyword, ext=n)\<close>\<close>

definition fits_getval :: "'p disk \<Rightarrow> string \<Rightarrow> string \<Rightarrow> nat \<Rightarrow> error + hval" where
  "fits_getval fs filename keyword ext =
     (case fits_open fs filename of
        Inl e \<Rightarrow> Inl e
      | Inr hdul \<Rightarrow>
          if ext < length hdul then
            (case header (hdul ! ext) (upper keyword) of
               Some v \<Rightarrow> Inr v
             | None \<Rightarrow> Inl KeyError)
          else Inl IndexError)"

text \<open>
  \<^verbatim>\<open>fits.getdata(filename, ext=n)\<close>, and \<^verbatim>\<open>fits.getdata(filename)\<close>, which reads the
  primary unit and, when that has no array, the first extension.
\<close>

definition fits_getdata_ext :: "'p disk \<Rightarrow> string \<Rightarrow> nat \<Rightarrow> error + 'p ndarray" where
  "fits_getdata_ext fs filename ext =
     (case fits_open fs filename of
        Inl e \<Rightarrow> Inl e
      | Inr hdul \<Rightarrow>
          if ext < length hdul then
            (case data (hdul ! ext) of
               Some a \<Rightarrow> Inr a
             | None \<Rightarrow> Inl IndexError)
          else Inl IndexError)"

definition fits_getdata :: "'p disk \<Rightarrow> string \<Rightarrow> error + 'p ndarray" where
  "fits_getdata fs filename =
     (case fits_open fs filename of
        Inl e \<Rightarrow> Inl e
      | Inr hdul \<Rightarrow>
          (case hdul of
             [] \<Rightarrow> Inl IndexError
           | h0 # rest \<Rightarrow>
               (case data h0 of
                  Some a \<Rightarrow> Inr a
                | None \<Rightarrow>
                    (case rest of
                       [] \<Rightarrow> Inl IndexError
                     | h1 # rest' \<Rightarrow>
                         (case data h1 of
                            Some a \<Rightarrow> Inr a
                          | None \<Rightarrow> Inl IndexError)))))"

section \<open>Listing files by pattern\<close>

text \<open>
  \<^verbatim>\<open>fnmatch\<close> for a pattern of literal characters, \<^verbatim>\<open>*\<close> and \<^verbatim>\<open>?\<close>.
\<close>

fun fnmatch :: "string \<Rightarrow> string \<Rightarrow> bool" where
  "fnmatch [] [] = True"
| "fnmatch (c # cs) [] = False"
| "fnmatch [] (p # ps) = (p = CHR ''*'' \<and> fnmatch [] ps)"
| "fnmatch (c # cs) (p # ps) =
     (if p = CHR ''*'' then fnmatch (c # cs) ps \<or> fnmatch cs (p # ps)
      else (p = CHR ''?'' \<or> p = c) \<and> fnmatch cs ps)"

text \<open>
  \<^verbatim>\<open>glob.glob(pattern)\<close> for a pattern without a directory part: the names of the working
  directory that match, in the order the operating system lists them. A name that begins
  with a dot matches only a pattern that begins with a dot.
\<close>

definition glob_glob :: "string list \<Rightarrow> string \<Rightarrow> string list" where
  "glob_glob names pattern =
     filter (\<lambda>n. fnmatch n pattern \<and> (take 1 n = ''.'' \<longrightarrow> take 1 pattern = ''.'')) names"

section \<open>The table of flat-fielded files\<close>

text \<open>
  \<^verbatim>\<open>
  flt_table = Table(names=('file', 'start', 'filter1', 'mdecodt1', 'mdecodt2', 'avgtemp'),
                    dtype=('S64', 'S19', 'S6', 'f8', 'f8', 'f8'))
  \<close>
  The table is the list of its rows. The widths of the string columns belong to the table
  library and are not modelled.
\<close>

record flt_row =
  "file" :: string
  start :: string
  filter1 :: hval
  mdecodt1 :: pyfloat
  mdecodt2 :: pyfloat
  avgtemp :: pyfloat

type_synonym flt_table = "flt_row list"

text \<open>Python's \<^verbatim>\<open>+\<close> and \<^verbatim>\<open>/\<close> on header values.\<close>

fun py_add :: "hval \<Rightarrow> hval \<Rightarrow> error + hval" where
  "py_add (Str a) (Str b) = Inr (Str (a @ b))"
| "py_add (Num a) (Num b) = Inr (Num (fadd a b))"
| "py_add x y = Inl TypeError"

fun py_truediv :: "hval \<Rightarrow> hval \<Rightarrow> error + hval" where
  "py_truediv (Num a) (Num b) =
     (if b = Fin 0 then Inl ZeroDivisionError else Inr (Num (fdiv a b)))"
| "py_truediv x y = Inl TypeError"

text \<open>
  \<^verbatim>\<open>flt_table.add_row((file, starttime, filt, t1, t2, avgtemp))\<close>: a float column takes a
  number and a string column a string.
\<close>

fun add_row ::
  "flt_table \<Rightarrow> string \<times> hval \<times> hval \<times> hval \<times> hval \<times> hval \<Rightarrow> error + flt_table" where
  "add_row tbl (f, Str st, Str filt, Num t1, Num t2, Num avg) =
     Inr (tbl @ [\<lparr>file = f, start = st, filter1 = Str filt,
                  mdecodt1 = t1, mdecodt2 = t2, avgtemp = avg\<rparr>])"
| "add_row tbl r = Inl ValueError"

text \<open>
  The body of the loop over \<^verbatim>\<open>flt_list\<close>:
  \<^verbatim>\<open>
  filt = fits.getval(file,'FILTER1', ext=0)
  date = fits.getval(file,'DATE-OBS', ext=0)
  time = fits.getval(file,'TIME-OBS', ext=0)
  t1 = fits.getval(file,'MDECODT1', ext=1)
  t2 = fits.getval(file,'MDECODT2', ext=1)
  starttime = date + 'T' + time
  avgtemp = (t1+t2) / 2
  flt_table.add_row((file, starttime, filt, t1, t2, avgtemp))
  \<close>
  The part after the five reads is \<open>new_row\<close>.
\<close>

definition new_row ::
  "string \<Rightarrow> hval \<Rightarrow> hval \<Rightarrow> hval \<Rightarrow> hval \<Rightarrow> hval \<Rightarrow>
   error + string \<times> hval \<times> hval \<times> hval \<times> hval \<times> hval" where
  "new_row file' filt date time t1 t2 =
     (case py_add date (Str ''T'') of
        Inl e \<Rightarrow> Inl e
      | Inr dT \<Rightarrow>
     (case py_add dT time of
        Inl e \<Rightarrow> Inl e
      | Inr starttime \<Rightarrow>
     (case py_add t1 t2 of
        Inl e \<Rightarrow> Inl e
      | Inr s \<Rightarrow>
     (case py_truediv s (Num (Fin 2)) of
        Inl e \<Rightarrow> Inl e
      | Inr avgtemp' \<Rightarrow> Inr (file', starttime, filt, t1, t2, avgtemp')))))"

definition add_flt_row :: "'p disk \<Rightarrow> flt_table \<Rightarrow> string \<Rightarrow> flt_table outcome" where
  "add_flt_row fs flt_table' file' =
     (case fits_getval fs file' ''FILTER1'' 0 of
        Inl e \<Rightarrow> Inl (e, flt_table')
      | Inr filt \<Rightarrow>
     (case fits_getval fs file' ''DATE-OBS'' 0 of
        Inl e \<Rightarrow> Inl (e, flt_table')
      | Inr date \<Rightarrow>
     (case fits_getval fs file' ''TIME-OBS'' 0 of
        Inl e \<Rightarrow> Inl (e, flt_table')
      | Inr time \<Rightarrow>
     (case fits_getval fs file' ''MDECODT1'' 1 of
        Inl e \<Rightarrow> Inl (e, flt_table')
      | Inr t1 \<Rightarrow>
     (case fits_getval fs file' ''MDECODT2'' 1 of
        Inl e \<Rightarrow> Inl (e, flt_table')
      | Inr t2 \<Rightarrow>
     (case new_row file' filt date time t1 t2 of
        Inl e \<Rightarrow> Inl (e, flt_table')
      | Inr r \<Rightarrow> call flt_table' (add_row flt_table' r)))))))"

text \<open>The loop starts from the empty table of the cell before it.\<close>

definition build_flt_table :: "'p disk \<Rightarrow> string list \<Rightarrow> flt_table outcome" where
  "build_flt_table fs flt_list = for_each (add_flt_row fs) flt_list []"

text \<open>
  \<^verbatim>\<open>flt_table.sort('avgtemp')\<close> orders the rows by the one column. The table library puts
  not-a-number last; the order it gives to rows of equal temperature is its own, and the
  model keeps them in the order they had.
\<close>

fun sort_position :: "pyfloat \<Rightarrow> nat \<times> rat" where
  "sort_position NInf = (0, 0)"
| "sort_position (Fin a) = (1, a)"
| "sort_position PInf = (2, 0)"
| "sort_position NaN = (3, 0)"

definition sort_avgtemp :: "flt_table \<Rightarrow> flt_table" where
  "sort_avgtemp tbl = sort_key (\<lambda>r. sort_position (avgtemp r)) tbl"

section \<open>Arrays\<close>

definition shape :: "'p ndarray \<Rightarrow> nat \<times> nat" where
  "shape a = (length a, case a of [] \<Rightarrow> 0 | r # rs \<Rightarrow> length r)"

text \<open>An array read from a file is rectangular.\<close>

definition rect :: "'p ndarray \<Rightarrow> bool" where
  "rect a \<longleftrightarrow> list_all (\<lambda>r. length r = snd (shape a)) a"

text \<open>
  Broadcasting: an axis of length one is repeated along the other array's axis.
\<close>

definition broadcast_dim :: "nat \<Rightarrow> nat \<Rightarrow> nat option" where
  "broadcast_dim n m =
     (if n = m then Some n else if n = 1 then Some m else if m = 1 then Some n else None)"

definition broadcast_to :: "'p ndarray \<Rightarrow> nat \<times> nat \<Rightarrow> 'p ndarray" where
  "broadcast_to a s =
     map (\<lambda>i. map (\<lambda>j. a ! (if fst (shape a) = 1 then 0 else i)
                          ! (if snd (shape a) = 1 then 0 else j))
                [0..<snd s])
         [0..<fst s]"

text \<open>\<^verbatim>\<open>a * b\<close> on two arrays gives a new array.\<close>

definition np_multiply :: "'p::times ndarray \<Rightarrow> 'p ndarray \<Rightarrow> error + 'p ndarray" where
  "np_multiply a b =
     (case (broadcast_dim (fst (shape a)) (fst (shape b)),
            broadcast_dim (snd (shape a)) (snd (shape b))) of
        (Some r, Some c) \<Rightarrow>
          Inr (map2 (map2 (*)) (broadcast_to a (r, c)) (broadcast_to b (r, c)))
      | _ \<Rightarrow> Inl ValueError)"

text \<open>\<^verbatim>\<open>a[:,:] = v\<close> writes into the array \<open>a\<close>, whose shape stays.\<close>

definition assign_all :: "'p ndarray \<Rightarrow> 'p ndarray \<Rightarrow> error + 'p ndarray" where
  "assign_all a v =
     (if (fst (shape v) = fst (shape a) \<or> fst (shape v) = 1) \<and>
         (snd (shape v) = snd (shape a) \<or> snd (shape v) = 1)
      then Inr (broadcast_to v (shape a))
      else Inl ValueError)"

section \<open>Dark frames in copies of science files\<close>

text \<open>
  \<^verbatim>\<open>os.system('cp {:} {:}'.format(src, dst))\<close> for names without blanks or shell
  characters. The command does not raise: it answers the exit status, which the cell drops.
\<close>

definition os_system_cp :: "'a filesystem \<Rightarrow> string \<Rightarrow> string \<Rightarrow> int \<times> 'a filesystem" where
  "os_system_cp fs src dst =
     (let s = resolve src; d = resolve dst in
      if src = [] \<or> dst = [] then (256, fs)
      else (case fs s of
        Some (File c) \<Rightarrow>
          (let t = (if is_dir fs d then d @ [last s] else d) in
           if names_dir src \<or> (names_dir dst \<and> \<not> is_dir fs d) \<or>
              is_dir fs t \<or> \<not> is_dir fs (butlast t) \<or> t = s then (256, fs)
           else (0, fs(t \<mapsto> File c)))
      | _ \<Rightarrow> (256, fs)))"

text \<open>\<^verbatim>\<open>hdu[n].data[:,:] = v\<close> and \<^verbatim>\<open>hdu[n].header[k] = v\<close> on an open file.\<close>

definition set_data :: "'p hdulist \<Rightarrow> nat \<Rightarrow> 'p ndarray \<Rightarrow> error + 'p hdulist" where
  "set_data hdul n v =
     (if n < length hdul then
        (case data (hdul ! n) of
           None \<Rightarrow> Inl TypeError
         | Some a \<Rightarrow>
             (case assign_all a v of
                Inl e \<Rightarrow> Inl e
              | Inr a' \<Rightarrow> Inr (hdul[n := (hdul ! n)\<lparr>data := Some a'\<rparr>])))
      else Inl IndexError)"

definition set_header :: "'p hdulist \<Rightarrow> nat \<Rightarrow> string \<Rightarrow> hval \<Rightarrow> error + 'p hdulist" where
  "set_header hdul n k v =
     (if n < length hdul then
        Inr (hdul[n := (hdul ! n)\<lparr>header := (header (hdul ! n))(upper k \<mapsto> v)\<rparr>])
      else Inl IndexError)"

text \<open>
  \<^verbatim>\<open>
  os.system('cp {:} {:}'.format(flt_file, new_file))
  darkdat = fits.getdata(drk_file)
  exptime = fits.getval(drk_file, 'exptime', ext=0)
  with fits.open(new_file,mode='update') as hdu:
      hdu[1].data[:,:] = darkdat
      hdu[0].header['exptime'] = exptime
  \<close>
  Leaving the \<^verbatim>\<open>with\<close> block writes the header-data units back to the file, also when
  the block is left by an exception.
\<close>

definition dark_substitute ::
  "'p disk \<Rightarrow> string \<Rightarrow> string \<Rightarrow> string \<Rightarrow> 'p disk outcome" where
  "dark_substitute fs flt_file drk_file new_file =
     (let fs1 = snd (os_system_cp fs flt_file new_file) in
      case fits_getdata fs1 drk_file of
        Inl e \<Rightarrow> Inl (e, fs1)
      | Inr darkdat \<Rightarrow>
     (case fits_getval fs1 drk_file ''exptime'' 0 of
        Inl e \<Rightarrow> Inl (e, fs1)
      | Inr exptime \<Rightarrow>
     (case fits_open fs1 new_file of
        Inl e \<Rightarrow> Inl (e, fs1)
      | Inr hdu \<Rightarrow>
     (case set_data hdu 1 darkdat of
        Inl e \<Rightarrow> Inl (e, fs1(resolve new_file \<mapsto> File hdu))
      | Inr hdu1 \<Rightarrow>
     (case set_header hdu1 0 ''exptime'' exptime of
        Inl e \<Rightarrow> Inl (e, fs1(resolve new_file \<mapsto> File hdu1))
      | Inr hdu2 \<Rightarrow> Inr (fs1(resolve new_file \<mapsto> File hdu2)))))))"

definition dark1_cell :: "'p disk \<Rightarrow> 'p disk outcome" where
  "dark1_cell fs = dark_substitute fs ''jcmc11ctq_flt.fits'' ''jcrx01iiq_raw.fits'' ''dark1.fits''"


section \<open>Applying the pixel area map\<close>

text \<open>
  Arrays are objects: a variable holds the address of an array in the heap, and a new
  array gets the next free address.
\<close>

type_synonym addr = nat

type_synonym 'p heap = "'p ndarray list"

definition alloc :: "'p heap \<Rightarrow> 'p ndarray \<Rightarrow> addr \<times> 'p heap" where
  "alloc h a = (length h, h @ [a])"

record 'p pam_frame =
  heap :: "'p heap"
  fl_img :: addr
  pam_img :: addr
  pamd_img :: addr

text \<open>
  \<^verbatim>\<open>
  def triple_plot_pam(flt_file, pam_file, figtitle):
      fl_img = fits.getdata(flt_file, ext=1)
      pam_img = fits.getdata(pam_file)
      ...
      pamd_img = fl_img*pam_img
      ...
  \<close>
  The plotting calls between these lines read the arrays and draw; they have no part in
  the model. The function answers its local variables and the heap at its end.
\<close>

definition triple_plot_pam ::
  "'p::times disk \<Rightarrow> 'p heap \<Rightarrow> string \<Rightarrow> string \<Rightarrow> error + 'p pam_frame" where
  "triple_plot_pam fs h flt_file pam_file =
     (case fits_getdata_ext fs flt_file 1 of
        Inl e \<Rightarrow> Inl e
      | Inr a \<Rightarrow>
     (let (fl, h1) = alloc h a in
      case fits_getdata fs pam_file of
        Inl e \<Rightarrow> Inl e
      | Inr b \<Rightarrow>
     (let (pam, h2) = alloc h1 b in
      case np_multiply (h2 ! fl) (h2 ! pam) of
        Inl e \<Rightarrow> Inl e
      | Inr c \<Rightarrow>
     (let (pamd, h3) = alloc h2 c in
      Inr \<lparr>heap = h3, fl_img = fl, pam_img = pam, pamd_img = pamd\<rparr>))))"

text \<open>
  The maps themselves are written by the library call \<^verbatim>\<open>pamutils.pam_from_file\<close>, which
  is a parameter here. The cells from the first map to the first plot:
  \<^verbatim>\<open>
  pamutils.pam_from_file(flt_file, ext=1, output_pam='j6me13qhq_wfc2_pam.fits')
  pamutils.pam_from_file(flt_file, ext=4, output_pam='j6me13qhq_wfc1_pam.fits')
  triple_plot_pam(flt_file, 'j6me13qhq_wfc2_pam.fits', 'WFC2 PAM Correction Results')
  \<close>
\<close>

definition wfc2_pam_correction ::
  "('p::times disk \<Rightarrow> string \<Rightarrow> nat \<Rightarrow> string \<Rightarrow> error + 'p disk) \<Rightarrow>
   'p disk \<Rightarrow> 'p heap \<Rightarrow> string \<Rightarrow> error + 'p pam_frame" where
  "wfc2_pam_correction pam_from_file fs h flt_file =
     (case pam_from_file fs flt_file 1 ''j6me13qhq_wfc2_pam.fits'' of
        Inl e \<Rightarrow> Inl e
      | Inr fs1 \<Rightarrow>
     (case pam_from_file fs1 flt_file 4 ''j6me13qhq_wfc1_pam.fits'' of
        Inl e \<Rightarrow> Inl e
      | Inr fs2 \<Rightarrow> triple_plot_pam fs2 h flt_file ''j6me13qhq_wfc2_pam.fits''))"

section \<open>Names used and names bound by the code cells\<close>

text \<open>
  A statement reads names and then binds names. A code cell is the list of its statements
  in the order they run; a call of a function defined in the notebook also reads the
  global names of the function's body. Running the cells from the top in a fresh kernel
  stops with \<^verbatim>\<open>NameError\<close> at the first name read before it is bound; the result then
  is the number of the code cell, counted from one, and the name.
\<close>

record stmt =
  reads :: "string list"
  binds :: "string list"

definition uses :: "string list \<Rightarrow> stmt" where
  "uses rs = \<lparr>reads = rs, binds = []\<rparr>"

definition assigns :: "string list \<Rightarrow> string list \<Rightarrow> stmt" where
  "assigns bs rs = \<lparr>reads = rs, binds = bs\<rparr>"

fun run_stmts :: "string list \<Rightarrow> stmt list \<Rightarrow> string + string list" where
  "run_stmts env [] = Inr env"
| "run_stmts env (s # ss) =
     (case find (\<lambda>n. n \<notin> set env) (reads s) of
        Some n \<Rightarrow> Inl n
      | None \<Rightarrow> run_stmts (binds s @ env) ss)"

fun run_cells :: "string list \<Rightarrow> nat \<Rightarrow> stmt list list \<Rightarrow> (nat \<times> string) option" where
  "run_cells env k [] = None"
| "run_cells env k (c # cs) =
     (case run_stmts env c of
        Inl n \<Rightarrow> Some (k, n)
      | Inr env' \<Rightarrow> run_cells env' (Suc k) cs)"

text \<open>The built-in names the notebooks use.\<close>

definition builtins :: "string list" where
  "builtins = [''print'']"

definition run_all :: "stmt list list \<Rightarrow> (nat \<times> string) option" where
  "run_all cells = run_cells builtins 1 cells"

text \<open>The code cells of the pixel-area-map notebook.\<close>

definition pam_notebook :: "stmt list list" where
  "pam_notebook =
    [ [assigns [''Observations''] [], assigns [''os''] [], assigns [''shutil''] [],
       assigns [''pamutils''] [], assigns [''fits''] [], assigns [''plt''] []],
      [assigns [''obs_table''] [''Observations''],
       assigns [''dl_table''] [''Observations'', ''obs_table'']],
      [assigns [''row''] [''dl_table''],
       assigns [''oldfname''] [''row''],
       assigns [''newfname''] [''os'', ''oldfname''],
       uses [''os'', ''oldfname'', ''newfname''],
       uses [''shutil'']],
      [assigns [''hdulist''] [''fits'', ''flt_file''],
       uses [''hdulist'']],
      [assigns [''flt_file''] []],
      [uses [''pamutils'', ''flt_file'']],
      [uses [''pamutils'', ''flt_file'']],
      [assigns [''ZScaleInterval'', ''LinearStretch'', ''ImageNormalize''] [],
       assigns [''ds9_imitate''] [],
       assigns [''triple_plot_pam''] []],
      [uses [''triple_plot_pam'', ''flt_file'', ''fits'', ''plt'', ''ds9_imitate'',
             ''ImageNormalize'', ''ZScaleInterval'', ''LinearStretch'']],
      [uses [''triple_plot_pam'', ''flt_file'', ''fits'', ''plt'', ''ds9_imitate'',
             ''ImageNormalize'', ''ZScaleInterval'', ''LinearStretch'']] ]"

text \<open>The code cells of the dark-analysis notebook.\<close>

definition dark_notebook :: "stmt list list" where
  "dark_notebook =
    [ [assigns [''os''] [], assigns [''shutil''] [], assigns [''glob''] [],
       assigns [''plt''] [], assigns [''np''] [], assigns [''Observations''] [],
       assigns [''adriz''] [], assigns [''fits''] [], assigns [''Table''] [],
       assigns [''wcs''] [], assigns [''LogNorm''] [],
       assigns [''EllipticalAperture''] [], assigns [''aperture_photometry''] []],
      [assigns [''science_list''] [''Observations''],
       assigns [''sci_dl_table''] [''Observations'', ''science_list'']],
      [assigns [''darks_list''] [''Observations''],
       assigns [''drk_dl_table''] [''Observations'', ''darks_list'']],
      [assigns [''dl_table''] [''sci_dl_table'', ''drk_dl_table''],
       assigns [''row''] [''dl_table''],
       assigns [''oldfname''] [''row''],
       assigns [''newfname''] [''os'', ''oldfname''],
       uses [''os'', ''oldfname'', ''newfname''],
       uses [''shutil'']],
      [assigns [''asn_list''] [''glob''], assigns [''flt_list''] [''glob''],
       assigns [''drk_list''] [''glob'']],
      [assigns [''hdulist''] [''fits'', ''drk_list''],
       uses [''hdulist'']],
      [assigns [''flt_table''] [''Table'']],
      [assigns [''file''] [''flt_list''],
       assigns [''filt''] [''fits'', ''file''],
       assigns [''date''] [''fits'', ''file''],
       assigns [''time''] [''fits'', ''file''],
       assigns [''t1''] [''fits'', ''file''],
       assigns [''t2''] [''fits'', ''file''],
       assigns [''starttime''] [''date'', ''time''],
       assigns [''avgtemp''] [''t1'', ''t2''],
       uses [''flt_table'', ''file'', ''starttime'', ''filt'', ''t1'', ''t2'', ''avgtemp''],
       uses [''print'', ''flt_table'']],
      [uses [''flt_table''], uses [''print'', ''flt_table'']],
      [assigns [''driz_kwargs''] []],
      [assigns [''file''] [''asn_list''],
       assigns [''output_name''] [''fits'', ''file''],
       uses [''adriz'', ''file'', ''output_name'', ''driz_kwargs'']],
      [assigns [''cutter''] [''np'']],
      [assigns [''sci_list''] [],
       uses [''print''],
       assigns [''file''] [''sci_list''],
       assigns [''image''] [''fits'', ''file''],
       assigns [''img_slice''] [''image'', ''cutter''],
       assigns [''neatname''] [''os'', ''file''],
       uses [''print'', ''neatname'', ''np'', ''img_slice''],
       uses [''print''],
       uses [''print''],
       assigns [''file''] [''drk_list''],
       assigns [''image''] [''fits'', ''file''],
       assigns [''img_slice''] [''image'', ''cutter''],
       assigns [''neatname''] [''os'', ''file''],
       uses [''print'', ''neatname'', ''np'', ''img_slice'']],
      [assigns [''flt_file''] [], assigns [''drk_file''] [], assigns [''new_file''] [],
       uses [''os'', ''flt_file'', ''new_file''],
       assigns [''darkdat''] [''fits'', ''drk_file''],
       assigns [''exptime''] [''fits'', ''drk_file''],
       assigns [''hdu''] [''fits'', ''new_file''],
       uses [''hdu'', ''darkdat''],
       uses [''hdu'', ''exptime'']],
      [assigns [''flt_file''] [], assigns [''drk_file''] [], assigns [''new_file''] [],
       uses [''os'', ''flt_file'', ''new_file''],
       assigns [''darkdat''] [''fits'', ''drk_file''],
       assigns [''exptime''] [''fits'', ''drk_file''],
       assigns [''hdu''] [''fits'', ''new_file''],
       uses [''hdu'', ''darkdat''],
       uses [''hdu'', ''exptime'']],
      [assigns [''adriz_output''] [''adriz'', ''driz_kwargs'']],
      [assigns [''f165lp''] [''fits''],
       assigns [''masterdark''] [''fits''],
       assigns [''fig'', ''ax''] [''plt''],
       uses [''ax''], uses [''ax''],
       assigns [''plt_kwargs''] [''LogNorm''],
       uses [''ax'', ''f165lp'', ''plt_kwargs''],
       uses [''ax'', ''masterdark'', ''plt_kwargs'']],
      [assigns [''aper''] [''EllipticalAperture'', ''np'']],
      [assigns [''fig'', ''ax''] [''plt''],
       uses [''ax''], uses [''ax''],
       uses [''ax'', ''f165lp'', ''plt_kwargs''],
       uses [''ax'', ''masterdark'', ''plt_kwargs''],
       uses [''aper'', ''ax''], uses [''aper'', ''ax'']],
      [assigns [''f165lp_phot''] [''aperture_photometry'', ''f165lp'', ''aper''],
       assigns [''masterdark_phot''] [''aperture_photometry'', ''masterdark'', ''aper''],
       assigns [''sumdiff''] [''f165lp_phot'', ''masterdark_phot''],
       uses [''print''], uses [''print'', ''f165lp_phot''], uses [''print''],
       uses [''print''], uses [''print'', ''masterdark_phot''], uses [''print''],
       uses [''print''], uses [''print'', ''sumdiff'']] ]"

section \<open>Example data\<close>

text \<open>
  A download tree with two products of the same name, and a download table that lists
  them; a second table lists a product that was not delivered.
\<close>

definition example_tree :: "nat filesystem" where
  "example_tree =
     [[''mastDownload''] \<mapsto> Dir,
      [''mastDownload'', ''HST''] \<mapsto> Dir,
      [''mastDownload'', ''HST'', ''a''] \<mapsto> Dir,
      [''mastDownload'', ''HST'', ''b''] \<mapsto> Dir,
      [''mastDownload'', ''HST'', ''a'', ''x.fits''] \<mapsto> File 1,
      [''mastDownload'', ''HST'', ''b'', ''x.fits''] \<mapsto> File 2]"

definition example_sci_rows :: "dl_row list" where
  "example_sci_rows = [\<lparr>Local_Path = ''./mastDownload/HST/a/x.fits'', Status = ''COMPLETE''\<rparr>]"

definition example_drk_rows :: "dl_row list" where
  "example_drk_rows = [\<lparr>Local_Path = ''./mastDownload/HST/b/x.fits'', Status = ''COMPLETE''\<rparr>]"


text \<open>A temperature reading so large that twice its value is beyond the binary64 range.\<close>

definition example_hot :: rat where
  "example_hot = 2 ^ 1023"

text \<open>
  A disk with a flat-fielded science file, a raw dark frame and a pixel area map; the
  names the operating system lists; the row the science file gives, and the copy of the
  science file that carries the dark frame. A second disk holds the same header cards
  with other pixels and another file beside. A table of three rows, the local
  variables of the plotting function on the first disk, a disk without the science
  file on which a copy is left from an earlier run, a disk with nothing but the dark
  frame, and a disk whose science file records two temperature readings of \<open>2 ^ 1023\<close>,
  with the row it gives.
\<close>

definition example_flt :: "int hdulist" where
  "example_flt =
     [\<lparr>header = [''FILTER1'' \<mapsto> Str ''F165LP'', ''DATE-OBS'' \<mapsto> Str ''2015-06-01'',
                 ''TIME-OBS'' \<mapsto> Str ''12:00:00'', ''EXPTIME'' \<mapsto> Num (Fin 100)],
       data = None\<rparr>,
      \<lparr>header = [''MDECODT1'' \<mapsto> Num (Fin 20), ''MDECODT2'' \<mapsto> Num (Fin 30),
                 ''CRVAL1'' \<mapsto> Num (Fin 150)],
       data = Some [[1, 2], [3, 4]]\<rparr>,
      \<lparr>header = [''EXTNAME'' \<mapsto> Str ''ERR''], data = Some [[0, 0], [0, 0]]\<rparr>]"

definition example_raw :: "int hdulist" where
  "example_raw =
     [\<lparr>header = [''EXPTIME'' \<mapsto> Num (Fin 1000)], data = None\<rparr>,
      \<lparr>header = [''EXTNAME'' \<mapsto> Str ''SCI''], data = Some [[7, 8], [9, 10]]\<rparr>]"

definition example_pam :: "int hdulist" where
  "example_pam = [\<lparr>header = Map.empty, data = Some [[10, 10], [2, 2]]\<rparr>]"

definition example_disk :: "int disk" where
  "example_disk =
     [[''jcmc11ctq_flt.fits''] \<mapsto> File example_flt,
      [''jcrx01iiq_raw.fits''] \<mapsto> File example_raw,
      [''j6me13qhq_wfc2_pam.fits''] \<mapsto> File example_pam]"

definition example_names :: "string list" where
  "example_names = [''jcrx01iiq_raw.fits'', ''jcmc11ctq_flt.fits'', ''j6me13qhq_wfc2_pam.fits'']"

definition example_row :: flt_row where
  "example_row = \<lparr>file = ''jcmc11ctq_flt.fits'', start = ''2015-06-01T12:00:00'',
     filter1 = Str ''F165LP'', mdecodt1 = Fin 20, mdecodt2 = Fin 30, avgtemp = Fin 25\<rparr>"

definition example_copy :: "int hdulist" where
  "example_copy =
     [\<lparr>header = [''FILTER1'' \<mapsto> Str ''F165LP'', ''DATE-OBS'' \<mapsto> Str ''2015-06-01'',
                 ''TIME-OBS'' \<mapsto> Str ''12:00:00'', ''EXPTIME'' \<mapsto> Num (Fin 1000)],
       data = None\<rparr>,
      \<lparr>header = [''MDECODT1'' \<mapsto> Num (Fin 20), ''MDECODT2'' \<mapsto> Num (Fin 30),
                 ''CRVAL1'' \<mapsto> Num (Fin 150)],
       data = Some [[7, 8], [9, 10]]\<rparr>,
      \<lparr>header = [''EXTNAME'' \<mapsto> Str ''ERR''], data = Some [[0, 0], [0, 0]]\<rparr>]"

definition example_other_disk :: "int disk" where
  "example_other_disk =
     [[''jcmc11ctq_flt.fits''] \<mapsto>
        File [\<lparr>header = header (example_flt ! 0), data = None\<rparr>,
              \<lparr>header = header (example_flt ! 1), data = Some [[5, 5], [5, 5]]\<rparr>],
      [''unrelated.fits''] \<mapsto> File example_raw]"

definition example_table :: flt_table where
  "example_table =
     [example_row\<lparr>file := ''hot_flt.fits'', avgtemp := Fin 26\<rparr>,
      example_row\<lparr>file := ''cold_flt.fits'', avgtemp := Fin 19\<rparr>,
      example_row]"

definition example_frame :: "int pam_frame" where
  "example_frame =
     \<lparr>heap = [[[1, 2], [3, 4]], [[10, 10], [2, 2]], [[10, 20], [6, 8]]],
      fl_img = 0, pam_img = 1, pamd_img = 2\<rparr>"

text \<open>A stand-in for the library call that writes a map: it writes the example map.\<close>

definition example_pam_from_file :: "int disk \<Rightarrow> string \<Rightarrow> nat \<Rightarrow> string \<Rightarrow> error + int disk" where
  "example_pam_from_file fs flt_file ext output_pam =
     Inr (fs(resolve output_pam \<mapsto> File example_pam))"



definition example_hot_flt :: "int hdulist" where
  "example_hot_flt =
     [\<lparr>header = header (example_flt ! 0), data = None\<rparr>,
      \<lparr>header = [''MDECODT1'' \<mapsto> Num (Fin example_hot),
                 ''MDECODT2'' \<mapsto> Num (Fin example_hot)],
       data = Some [[1, 2], [3, 4]]\<rparr>]"

definition example_hot_disk :: "int disk" where
  "example_hot_disk = [[''jcmc11e6q_flt.fits''] \<mapsto> File example_hot_flt]"

definition example_hot_row :: flt_row where
  "example_hot_row = \<lparr>file = ''jcmc11e6q_flt.fits'', start = ''2015-06-01T12:00:00'',
     filter1 = Str ''F165LP'', mdecodt1 = Fin example_hot, mdecodt2 = Fin example_hot,
     avgtemp = PInf\<rparr>"

section \<open>Paths\<close>

lemma split_sep_nosep: "s \<notin> set cs \<Longrightarrow> split_sep s cs = [cs]"
  by (induction cs) auto

lemma basename_nosep: "CHR ''/'' \<notin> set (basename p)"
  by (auto simp: basename_def dest: set_takeWhileD)

lemma resolve_basename:
  "resolve (basename p) = (if basename p = [] \<or> basename p = ''.'' then [] else [basename p])"
  by (simp add: resolve_def split_sep_nosep[OF basename_nosep])

lemma resolve_mastDownload: "resolve ''mastDownload/'' = resolve ''mastDownload''"
  by (simp add: resolve_def)

lemma beneath_single: "beneath [d] [b] \<longleftrightarrow> b = d"
  by (auto simp: beneath_def)

lemma is_file_iff: "is_file fs p \<longleftrightarrow> (\<exists>c. fs p = Some (File c))"
  by (auto simp: is_file_def split: option.splits node.splits)

lemma basename_idem: "basename (basename p) = basename p"
proof -
  have "\<forall>c\<in>set (rev (basename p)). c \<noteq> CHR ''/''"
    using basename_nosep[of p] by auto
  then have "takeWhile (\<lambda>c. c \<noteq> CHR ''/'') (rev (basename p)) = rev (basename p)"
    by (simp only: takeWhile_eq_all_conv)
  then show ?thesis by (simp add: basename_def)
qed

lemma in_resolve: "x \<in> set (resolve p) \<Longrightarrow> x \<noteq> [] \<and> x \<noteq> ''.''"
  by (simp add: resolve_def)

lemma resolve_Nil [simp]: "resolve [] = []"
  by (simp add: resolve_def)

text \<open>A path that ends in a name: the name is a component, and a path of its own.\<close>

lemma plain_basename:
  assumes "resolve p \<noteq> []" and "last (resolve p) = basename p"
  shows "p \<noteq> []" and "basename p \<noteq> []" and "basename p \<noteq> ''.''"
    and "resolve (basename p) = [basename p]"
    and "parent p = butlast (resolve p)" and "parent (basename p) = []"
proof -
  from assms have "basename p \<in> set (resolve p)" by (metis last_in_set)
  from in_resolve[OF this] show b: "basename p \<noteq> []" "basename p \<noteq> ''.''" by simp_all
  from assms(1) show "p \<noteq> []" by auto
  from b show r: "resolve (basename p) = [basename p]" by (simp add: resolve_basename)
  from b show "parent p = butlast (resolve p)" by (simp add: parent_def)
  from b r show "parent (basename p) = []" by (simp add: parent_def basename_idem)
qed

section \<open>Loops\<close>

lemma call_Inl_iff: "call s r = Inl (e, s') \<longleftrightarrow> r = Inl e \<and> s' = s"
  by (auto simp: call_def split: sum.splits)

lemma call_Inr_iff: "call s r = Inr s' \<longleftrightarrow> r = Inr s'"
  by (auto simp: call_def split: sum.splits)

lemma for_each_append:
  "for_each body (xs @ ys) s =
     (case for_each body xs s of Inl r \<Rightarrow> Inl r | Inr s' \<Rightarrow> for_each body ys s')"
  by (induction xs arbitrary: s) (auto split: sum.splits)

lemma for_each_concat:
  "for_each (\<lambda>s' xs. for_each body xs s') xss s = for_each body (concat xss) s"
  by (induction xss arbitrary: s) (auto simp: for_each_append split: sum.splits)


section \<open>Housekeeping\<close>

lemma housekeeping_dark_pam:
  "housekeeping_dark fs sci drk = housekeeping_pam fs (sci @ drk)"
proof -
  have "shutil_rmtree fs1 ''mastDownload/'' = shutil_rmtree fs1 ''mastDownload''"
    for fs1 :: "'a filesystem"
    by (simp add: shutil_rmtree_def resolve_mastDownload)
  moreover have "for_each (\<lambda>fs' dl_table. for_each move_row dl_table fs') [sci, drk] fs
     = for_each move_row (sci @ drk) fs"
    using for_each_concat[of move_row "[sci, drk]" fs] by simp
  ultimately show ?thesis
    by (simp add: housekeeping_dark_def housekeeping_pam_def split: sum.splits)
qed

text \<open>What a rename that completes has done to a regular file.\<close>

lemma move_row_file:
  assumes "move_row fs row = Inr fs1" and "fs (resolve (Local_Path row)) \<noteq> Some Dir"
  shows "\<exists>c. fs (resolve (Local_Path row)) = Some (File c) \<and>
             fs1 = fs(resolve (Local_Path row) := None, [basename (Local_Path row)] \<mapsto> File c) \<and>
             resolve (basename (Local_Path row)) = [basename (Local_Path row)]"
proof -
  let ?p = "Local_Path row"
  let ?s = "resolve ?p" and ?d = "resolve (basename ?p)"
  from assms have r: "os_rename fs ?p (basename ?p) = Inr fs1"
    by (simp add: move_row_def Let_def call_Inr_iff)
  from r assms(2) obtain c where c: "fs ?s = Some (File c)"
    by (cases "fs ?s") (auto simp: os_rename_def Let_def split: if_splits node.splits)
  from r c have d: "?d \<noteq> []"
    by (auto simp: os_rename_def Let_def split: if_splits)
  then have d1: "?d = [basename ?p]"
    by (simp add: resolve_basename split: if_splits)
  from r c have "fs1 = fs \<and> ?s = ?d \<or> fs1 = fs(?s := None, ?d \<mapsto> File c)"
    by (auto simp: os_rename_def Let_def split: if_splits)
  then have "fs1 = fs(?s := None, ?d \<mapsto> File c)"
  proof
    assume a: "fs1 = fs \<and> ?s = ?d"
    with c have "fs(?s := None, ?d \<mapsto> File c) = fs" by auto
    with a show ?thesis by simp
  qed
  with c d1 show ?thesis by auto
qed

text \<open>The rename of a row that can be moved completes.\<close>

lemma move_row_ok:
  assumes "movable fs row" and "fs [''mastDownload''] = Some Dir"
  shows "\<exists>c. fs (resolve (Local_Path row)) = Some (File c) \<and>
     move_row fs row =
       Inr (fs(resolve (Local_Path row) := None, [basename (Local_Path row)] \<mapsto> File c))"
proof -
  let ?p = "Local_Path row"
  let ?s = "resolve ?p" and ?b = "basename ?p"
  from assms(1) obtain c rest where c: "fs ?s = Some (File c)"
    and s: "?s = ''mastDownload'' # rest" "rest \<noteq> []"
    and pd: "is_dir fs (butlast ?s)" and l: "last ?s = ?b" and nd: "fs [?b] \<noteq> Some Dir"
    by (auto simp: movable_def downloaded_def is_file_iff)
  from s have ne: "?s \<noteq> []" by simp
  note pb = plain_basename[OF ne l]
  from nd assms(2) have bm: "?b \<noteq> ''mastDownload''" by auto
  have nb: "\<not> beneath [?b] ?s" using s bm by (simp add: beneath_def)
  have sd: "?s \<noteq> [?b]" using s by auto
  have "os_rename fs ?p ?b = Inr (fs(?s := None, [?b] \<mapsto> File c))"
    unfolding os_rename_def Let_def
    using pb c pd nd nb sd ne by (simp add: basename_idem is_dir_def)
  with c show ?thesis by (simp add: move_row_def Let_def call_def)
qed

text \<open>
  The file system after the loop over the rows: a name in the working directory holds the
  file of the last row with that name, the rows' files are gone from where they were, and
  every other path is as before.
\<close>

lemma move_rows_files:
  assumes "for_each move_row rows fs = Inr fs'"
    and "\<forall>row\<in>set rows. 2 \<le> length (resolve (Local_Path row)) \<and>
            fs (resolve (Local_Path row)) \<noteq> Some Dir"
  shows "(\<forall>row\<in>set rows. is_file fs (resolve (Local_Path row)) \<and>
            resolve (basename (Local_Path row)) = [basename (Local_Path row)]) \<and>
         distinct (map (\<lambda>r. resolve (Local_Path r)) rows) \<and>
         (\<forall>p. fs' p =
           (case filter (\<lambda>r. [basename (Local_Path r)] = p) rows of
              [] \<Rightarrow> if p \<in> (\<lambda>r. resolve (Local_Path r)) ` set rows then None else fs p
            | r # rs \<Rightarrow> fs (resolve (Local_Path (last (r # rs))))))"
  using assms
proof (induction rows arbitrary: fs)
  case Nil
  then show ?case by simp
next
  case (Cons row rows)
  let ?src = "\<lambda>r. resolve (Local_Path r)" and ?b = "\<lambda>r. basename (Local_Path r)"
  from Cons.prems(1) obtain fs1 where
    step: "move_row fs row = Inr fs1" and rest: "for_each move_row rows fs1 = Inr fs'"
    by (auto split: sum.splits)
  from Cons.prems(2) have len0: "2 \<le> length (?src row)" and nd0: "fs (?src row) \<noteq> Some Dir"
    by auto
  from move_row_file[OF step nd0] obtain c where
    c: "fs (?src row) = Some (File c)" and
    fs1: "fs1 = fs(?src row := None, [?b row] \<mapsto> File c)" and
    d0: "resolve (?b row) = [?b row]"
    by blast
  from len0 have neq0: "?src row \<noteq> [?b row]" by auto
  have pre1: "\<forall>r\<in>set rows. 2 \<le> length (?src r) \<and> fs1 (?src r) \<noteq> Some Dir"
    using Cons.prems(2) fs1 by auto
  note IH = Cons.IH[OF rest pre1]
  from IH have files1: "\<forall>r\<in>set rows. is_file fs1 (?src r)"
    and dst1: "\<forall>r\<in>set rows. resolve (?b r) = [?b r]"
    and dist1: "distinct (map ?src rows)"
    and char1: "\<And>p. fs' p =
           (case filter (\<lambda>r. [?b r] = p) rows of
              [] \<Rightarrow> if p \<in> ?src ` set rows then None else fs1 p
            | r # rs \<Rightarrow> fs1 (?src (last (r # rs))))"
    by blast+
  have ne1: "?src r \<noteq> [b]" if "r \<in> set rows" for r b
  proof
    assume "?src r = [b]"
    then have "length (?src r) = 1" by simp
    moreover from that Cons.prems(2) have "2 \<le> length (?src r)" by simp
    ultimately show False by simp
  qed
  have fs1_src0: "fs1 (?src row) = None" using fs1 neq0 by simp
  have notin: "?src row \<notin> ?src ` set rows"
  proof
    assume "?src row \<in> ?src ` set rows"
    then obtain r where "r \<in> set rows" "?src r = ?src row" by auto
    with files1 fs1_src0 show False by (auto simp: is_file_iff)
  qed
  have same: "fs1 (?src r) = fs (?src r)" if "r \<in> set rows" for r
  proof -
    from that notin have "?src r \<noteq> ?src row" by (metis imageI)
    moreover from that have "?src r \<noteq> [?b row]" by (rule ne1)
    ultimately show ?thesis using fs1 by simp
  qed
  have A: "\<forall>r\<in>set (row # rows). is_file fs (?src r) \<and> resolve (?b r) = [?b r]"
    using c d0 files1 dst1 same by (auto simp: is_file_iff)
  have B: "distinct (map ?src (row # rows))"
    using dist1 notin by simp
  have C: "fs' p =
           (case filter (\<lambda>r. [?b r] = p) (row # rows) of
              [] \<Rightarrow> if p \<in> ?src ` set (row # rows) then None else fs p
            | r # rs \<Rightarrow> fs (?src (last (r # rs))))" for p
  proof (cases "filter (\<lambda>r. [?b r] = p) rows")
    case Nil
    show ?thesis
    proof (cases "p \<in> ?src ` set rows")
      case True
      then have "[?b row] \<noteq> p" using ne1 by (metis imageE)
      with Nil True char1[of p] show ?thesis by simp
    next
      case False
      with Nil char1[of p] have "fs' p = fs1 p" by simp
      with Nil False fs1 c neq0 show ?thesis by auto
    qed
  next
    case (Cons r rs)
    then have "last (r # rs) \<in> set (filter (\<lambda>r. [?b r] = p) rows)"
      by (metis last_in_set list.discI)
    then have "last (r # rs) \<in> set rows" by simp
    from same[OF this] Cons char1[of p] show ?thesis by simp
  qed
  from A B C show ?case by blast
qed

lemma downloaded_pre:
  "downloaded fs row \<Longrightarrow>
     2 \<le> length (resolve (Local_Path row)) \<and> fs (resolve (Local_Path row)) \<noteq> Some Dir"
  by (cases "resolve (Local_Path row)") (auto simp: downloaded_def is_file_iff Suc_le_eq)


text \<open>Rows that can be moved, of distinct paths, are all moved.\<close>

lemma move_rows_complete:
  assumes "fs [''mastDownload''] = Some Dir"
    and "distinct (map (\<lambda>r. resolve (Local_Path r)) rows)"
    and "\<forall>row\<in>set rows. movable fs row"
  shows "\<exists>fs1. for_each move_row rows fs = Inr fs1 \<and> fs1 [''mastDownload''] = Some Dir"
  using assms
proof (induction rows arbitrary: fs)
  case Nil
  then show ?case by simp
next
  case (Cons row rows)
  let ?src = "\<lambda>r. resolve (Local_Path r)" and ?b = "\<lambda>r. basename (Local_Path r)"
  from Cons.prems(3) have m0: "movable fs row" by simp
  from move_row_ok[OF m0 Cons.prems(1)] obtain c where c: "fs (?src row) = Some (File c)"
    and step: "move_row fs row = Inr (fs(?src row := None, [?b row] \<mapsto> File c))"
    by blast
  define fs1 where "fs1 = fs(?src row := None, [?b row] \<mapsto> File c)"
  from m0 have nd0: "fs [?b row] \<noteq> Some Dir" and len0: "2 \<le> length (?src row)"
    by (auto simp: movable_def downloaded_def Suc_le_eq)
  from len0 have "?src row \<noteq> [''mastDownload'']" by auto
  moreover from nd0 Cons.prems(1) have "[?b row] \<noteq> [''mastDownload'']" by auto
  ultimately have md: "fs1 [''mastDownload''] = Some Dir"
    using Cons.prems(1) by (simp add: fs1_def)
  have mv: "movable fs1 r" if r: "r \<in> set rows" for r
  proof -
    from r Cons.prems(3) have m: "movable fs r" by simp
    then obtain cr where cr: "fs (?src r) = Some (File cr)"
      and len: "2 \<le> length (?src r)"
      and pd: "fs (butlast (?src r)) = Some Dir"
      and nd: "fs [?b r] \<noteq> Some Dir"
      by (auto simp: movable_def downloaded_def is_file_iff is_dir_def Suc_le_eq)
    from Cons.prems(2) have "?src row \<notin> ?src ` set rows" by simp
    with r have ne: "?src r \<noteq> ?src row" by (metis imageI)
    from len have ne1: "?src r \<noteq> [?b row]" by auto
    have f: "fs1 (?src r) = Some (File cr)" using cr ne ne1 by (simp add: fs1_def)
    have "butlast (?src r) \<noteq> ?src row" using pd c by auto
    moreover have "butlast (?src r) \<noteq> [?b row]" using pd nd0 by auto
    ultimately have d: "fs1 (butlast (?src r)) = Some Dir" using pd by (simp add: fs1_def)
    from len0 have "?src row \<noteq> [?b r]" by auto
    then have "[?b r] \<noteq> ?src row" by simp
    then have n: "fs1 [?b r] \<noteq> Some Dir" using nd by (auto simp: fs1_def)
    from m f d n show ?thesis
      by (auto simp: movable_def downloaded_def is_file_iff is_dir_def)
  qed
  from Cons.prems(2) have "distinct (map ?src rows)" by simp
  from Cons.IH[of fs1, OF md this] mv obtain fs2 where
    "for_each move_row rows fs1 = Inr fs2" "fs2 [''mastDownload''] = Some Dir" by blast
  with step show ?case by (simp add: fs1_def)
qed

lemma rmtree_mastDownload:
  "shutil_rmtree fs1 ''mastDownload'' = Inr fs' \<longleftrightarrow>
     fs1 [''mastDownload''] = Some Dir \<and>
     fs' = (\<lambda>q. if beneath [''mastDownload''] q then None else fs1 q)"
  by (auto simp: shutil_rmtree_def resolve_def Let_def split: option.splits node.splits)

text \<open>The cell on rows that can be moved completes, in either notebook.\<close>

lemma housekeeping_complete:
  assumes "fs [''mastDownload''] = Some Dir"
    and "distinct (map (\<lambda>r. resolve (Local_Path r)) rows)"
    and "\<forall>row\<in>set rows. movable fs row"
  shows "\<exists>fs'. housekeeping_pam fs rows = Inr fs'"
proof -
  from move_rows_complete[OF assms] obtain fs1 where
    "for_each move_row rows fs = Inr fs1" "fs1 [''mastDownload''] = Some Dir" by blast
  then show ?thesis
    by (simp add: housekeeping_pam_def call_def rmtree_mastDownload[THEN iffD2])
qed

lemma example_housekeeping:
  "housekeeping_dark example_tree example_sci_rows example_drk_rows = Inr [[''x.fits''] \<mapsto> File 2]"
  apply (simp add: example_tree_def example_sci_rows_def example_drk_rows_def
      housekeeping_dark_def move_row_def call_def os_rename_def shutil_rmtree_def parent_def
      resolve_def basename_def is_dir_def beneath_def Let_def)
  apply (rule ext)
  apply simp
  done

lemma example_movable:
  "movable example_tree (hd example_sci_rows) \<and> movable example_tree (hd example_drk_rows)"
  by (simp add: example_tree_def example_sci_rows_def example_drk_rows_def movable_def
      downloaded_def is_file_def is_dir_def resolve_def basename_def)


text \<open>
  C10. Every row of a download table names a regular file in the download tree. When the
  housekeeping cell of either notebook completes, the working directory holds each row's
  file under its basename, with the contents of the last row of that basename (a later
  rename has replaced an earlier file of the same name), nothing is left under
  \<^verbatim>\<open>mastDownload\<close>, and every other path is as it was. The cell of either notebook does
  complete when the download tree is there, the rows have different paths and each can
  be moved; the two cells then leave the same file system.
\<close>

theorem housekeeping_move_semantics:
  assumes "\<forall>row\<in>set rows. downloaded fs row"
  shows "(housekeeping_pam fs rows = Inr fs' \<or>
           (rows = sci @ drk \<and> housekeeping_dark fs sci drk = Inr fs') \<longrightarrow>
          (\<forall>row\<in>set rows.
             is_file fs' [basename (Local_Path row)] \<and>
             fs' [basename (Local_Path row)] =
               fs (resolve (Local_Path (last (filter
                     (\<lambda>r. basename (Local_Path r) = basename (Local_Path row)) rows))))) \<and>
          (\<forall>p. beneath [''mastDownload''] p \<longrightarrow> fs' p = None) \<and>
          (\<forall>p. \<not> beneath [''mastDownload''] p \<and>
               p \<notin> (\<lambda>r. [basename (Local_Path r)]) ` set rows \<longrightarrow> fs' p = fs p)) \<and>
         (fs [''mastDownload''] = Some Dir \<and>
          distinct (map (\<lambda>r. resolve (Local_Path r)) rows) \<and>
          (\<forall>row\<in>set rows. movable fs row) \<longrightarrow>
          (\<exists>fs1. housekeeping_pam fs rows = Inr fs1 \<and>
             (rows = sci @ drk \<longrightarrow> housekeeping_dark fs sci drk = Inr fs1)))"
proof (intro conjI impI)
  assume "fs [''mastDownload''] = Some Dir \<and>
          distinct (map (\<lambda>r. resolve (Local_Path r)) rows) \<and>
          (\<forall>row\<in>set rows. movable fs row)"
  then obtain fs1 where "housekeeping_pam fs rows = Inr fs1"
    using housekeeping_complete[of fs rows] by blast
  then show "\<exists>fs1. housekeeping_pam fs rows = Inr fs1 \<and>
             (rows = sci @ drk \<longrightarrow> housekeeping_dark fs sci drk = Inr fs1)"
    by (auto simp: housekeeping_dark_pam)
next
  let ?src = "\<lambda>r. resolve (Local_Path r)" and ?b = "\<lambda>r. basename (Local_Path r)"
  assume "housekeeping_pam fs rows = Inr fs' \<or>
           (rows = sci @ drk \<and> housekeeping_dark fs sci drk = Inr fs')"
  then have run: "housekeeping_pam fs rows = Inr fs'"
    by (auto simp: housekeeping_dark_pam)
  then obtain fs1 where moves: "for_each move_row rows fs = Inr fs1"
    and rm: "shutil_rmtree fs1 ''mastDownload'' = Inr fs'"
    by (auto simp: housekeeping_pam_def call_Inr_iff split: sum.splits)
  have pre: "\<forall>row\<in>set rows. 2 \<le> length (?src row) \<and> fs (?src row) \<noteq> Some Dir"
    using assms downloaded_pre by blast
  from move_rows_files[OF moves pre] have
    filesrc: "\<forall>row\<in>set rows. is_file fs (?src row)" and
    char: "\<And>p. fs1 p =
           (case filter (\<lambda>r. [?b r] = p) rows of
              [] \<Rightarrow> if p \<in> ?src ` set rows then None else fs p
            | r # rs \<Rightarrow> fs (?src (last (r # rs))))"
    by blast+
  from rm have md: "fs1 [''mastDownload''] = Some Dir"
    "fs' = (\<lambda>q. if beneath [''mastDownload''] q then None else fs1 q)"
    by (simp_all add: rmtree_mastDownload)
  have filt: "filter (\<lambda>r. [?b r] = [?b row]) rows = filter (\<lambda>r. ?b r = ?b row) rows" for row
    by simp
  have one: "is_file fs' [?b row] \<and>
      fs' [?b row] = fs (?src (last (filter (\<lambda>r. ?b r = ?b row) rows)))"
    if "row \<in> set rows" for row
  proof -
    let ?rs = "filter (\<lambda>r. ?b r = ?b row) rows"
    from that have "row \<in> set ?rs" by simp
    then obtain r rs where rs: "?rs = r # rs" by (cases ?rs) auto
    then have "last ?rs \<in> set ?rs" by (metis last_in_set list.discI)
    then have "last ?rs \<in> set rows" by simp
    with filesrc have f: "is_file fs (?src (last ?rs))" by blast
    from char[of "[?b row]"] rs have eq1: "fs1 [?b row] = fs (?src (last ?rs))"
      by (simp add: filt)
    with f md(1) have "?b row \<noteq> ''mastDownload''"
      by (auto simp: is_file_iff)
    then have "fs' [?b row] = fs1 [?b row]"
      using md(2) by (simp add: beneath_single)
    with eq1 f show ?thesis by (simp add: is_file_iff)
  qed
  then show "\<forall>row\<in>set rows.
             is_file fs' [basename (Local_Path row)] \<and>
             fs' [basename (Local_Path row)] =
               fs (resolve (Local_Path (last (filter
                     (\<lambda>r. basename (Local_Path r) = basename (Local_Path row)) rows))))"
    by blast
  show "\<forall>p. beneath [''mastDownload''] p \<longrightarrow> fs' p = None"
    using md(2) by simp
  have three: "fs' p = fs p"
    if "\<not> beneath [''mastDownload''] p" "p \<notin> (\<lambda>r. [?b r]) ` set rows" for p
  proof -
    from that(2) have "filter (\<lambda>r. [?b r] = p) rows = []"
      by (auto simp: filter_empty_conv)
    moreover have "p \<notin> ?src ` set rows"
    proof
      assume "p \<in> ?src ` set rows"
      then obtain r where "r \<in> set rows" "p = ?src r" by auto
      with assms have "beneath [''mastDownload''] p"
        by (auto simp: downloaded_def beneath_def)
      with that(1) show False by simp
    qed
    ultimately have "fs1 p = fs p" using char[of p] by simp
    with that(1) md(2) show ?thesis by simp
  qed
  then show "\<forall>p. \<not> beneath [''mastDownload''] p \<and>
               p \<notin> (\<lambda>r. [basename (Local_Path r)]) ` set rows \<longrightarrow> fs' p = fs p"
    by blast
qed

theorem housekeeping_move_semantics_witness:
  "example_tree [''mastDownload''] = Some Dir \<and>
   distinct (map (\<lambda>r. resolve (Local_Path r)) (example_sci_rows @ example_drk_rows)) \<and>
   movable example_tree (hd example_sci_rows) \<and>
   movable example_tree (hd example_drk_rows) \<and>
   housekeeping_pam example_tree (example_sci_rows @ example_drk_rows)
     = Inr [[''x.fits''] \<mapsto> File 2] \<and>
   housekeeping_dark example_tree example_sci_rows example_drk_rows
     = Inr [[''x.fits''] \<mapsto> File 2] \<and>
   [[''x.fits''] \<mapsto> File (2::nat)] [''x.fits''] =
     example_tree [''mastDownload'', ''HST'', ''b'', ''x.fits''] \<and>
   [[''x.fits''] \<mapsto> File (2::nat)] [''mastDownload'', ''HST'', ''a'', ''x.fits''] = None"
proof -
  let ?rows = "example_sci_rows @ example_drk_rows"
  let ?fs' = "[[''x.fits''] \<mapsto> File (2::nat)]"
  have tree: "example_tree [''mastDownload''] = Some Dir"
    by (simp add: example_tree_def)
  have dist: "distinct (map (\<lambda>r. resolve (Local_Path r)) ?rows)"
    by (simp add: example_sci_rows_def example_drk_rows_def resolve_def)
  have mov: "\<forall>row\<in>set ?rows. movable example_tree row"
    using example_movable by (simp add: example_sci_rows_def example_drk_rows_def)
  then have dl: "\<forall>row\<in>set ?rows. downloaded example_tree row"
    by (simp add: movable_def)
  note sem = housekeeping_move_semantics[OF dl, of ?fs' example_sci_rows example_drk_rows]
  from sem tree dist mov obtain fs1 where
    pam: "housekeeping_pam example_tree ?rows = Inr fs1" and
    dark: "housekeeping_dark example_tree example_sci_rows example_drk_rows = Inr fs1"
    by blast
  from dark example_housekeeping have fs1: "fs1 = ?fs'" by simp
  from sem pam fs1 have "\<forall>p. beneath [''mastDownload''] p \<longrightarrow> ?fs' p = None"
    and last: "\<forall>row\<in>set ?rows. ?fs' [basename (Local_Path row)] =
               example_tree (resolve (Local_Path (last (filter
                     (\<lambda>r. basename (Local_Path r) = basename (Local_Path row)) ?rows))))"
    by blast+
  then have "?fs' [''mastDownload'', ''HST'', ''a'', ''x.fits''] = None"
    by (simp add: beneath_def)
  moreover from last have "?fs' [''x.fits''] =
     example_tree [''mastDownload'', ''HST'', ''b'', ''x.fits'']"
    by (simp add: example_sci_rows_def example_drk_rows_def basename_def resolve_def)
  ultimately show ?thesis
    using tree dist example_movable pam dark fs1 by simp
qed

section \<open>The table of flat-fielded files\<close>

text \<open>The overflow bound as a numeral, for evaluation.\<close>

lemma overflow_code [code]: "overflow = 179769313486231590772930519078902473361797697894230657273430081157732675805500963132708477322407536021120113879871393357658789768814416622492847430639474124377767893424865485276302219601246094119453082952085005768838150682342462881473913110540827237163350510684586298239947245938479716304835356329624224137216"
  by (simp add: overflow_def)

lemma py_add_Inr:
  "py_add x y = Inr z \<longleftrightarrow>
     (\<exists>a b. x = Str a \<and> y = Str b \<and> z = Str (a @ b)) \<or>
     (\<exists>a b. x = Num a \<and> y = Num b \<and> z = Num (fadd a b))"
  by (cases x; cases y) auto

lemma py_truediv_Inr:
  "py_truediv x y = Inr z \<longleftrightarrow>
     (\<exists>a b. x = Num a \<and> y = Num b \<and> b \<noteq> Fin 0 \<and> z = Num (fdiv a b))"
  by (cases x; cases y) auto

lemma new_row_Inr:
  "new_row f filt date time t1 t2 = Inr r \<longleftrightarrow>
     (\<exists>d t a b. date = Str d \<and> time = Str t \<and> t1 = Num a \<and> t2 = Num b \<and>
        r = (f, Str (d @ ''T'' @ t), filt, Num a, Num b, Num (fdiv (fadd a b) (Fin 2))))"
  by (auto simp: new_row_def py_add_Inr py_truediv_Inr split: sum.splits)

lemma add_row_Inr:
  "add_row tbl (f, st, filt, t1, t2, avg) = Inr tbl' \<longleftrightarrow>
     (\<exists>s g a b c. st = Str s \<and> filt = Str g \<and> t1 = Num a \<and> t2 = Num b \<and> avg = Num c \<and>
        tbl' = tbl @ [\<lparr>file = f, start = s, filter1 = Str g,
                       mdecodt1 = a, mdecodt2 = b, avgtemp = c\<rparr>])"
  by (cases st; cases filt; cases t1; cases t2; cases avg) auto

lemma add_flt_row_Inr:
  assumes "add_flt_row fs tbl f = Inr tbl'"
  shows "\<exists>d t a b filt.
     fits_getval fs f ''FILTER1'' 0 = Inr filt \<and>
     fits_getval fs f ''DATE-OBS'' 0 = Inr (Str d) \<and>
     fits_getval fs f ''TIME-OBS'' 0 = Inr (Str t) \<and>
     fits_getval fs f ''MDECODT1'' 1 = Inr (Num a) \<and>
     fits_getval fs f ''MDECODT2'' 1 = Inr (Num b) \<and>
     tbl' = tbl @ [\<lparr>file = f, start = d @ ''T'' @ t, filter1 = filt,
                    mdecodt1 = a, mdecodt2 = b, avgtemp = fdiv (fadd a b) (Fin 2)\<rparr>]"
  using assms
  by (auto simp: add_flt_row_def new_row_Inr call_Inr_iff add_row_Inr split: sum.splits)

lemma for_each_add_rows:
  fixes fs :: "'p disk"
  defines "P \<equiv> \<lambda>f r. file r = f \<and>
     (\<exists>d t. fits_getval fs f ''DATE-OBS'' 0 = Inr (Str d) \<and>
            fits_getval fs f ''TIME-OBS'' 0 = Inr (Str t) \<and>
            start r = d @ ''T'' @ t) \<and>
     fits_getval fs f ''FILTER1'' 0 = Inr (filter1 r) \<and>
     fits_getval fs f ''MDECODT1'' 1 = Inr (Num (mdecodt1 r)) \<and>
     fits_getval fs f ''MDECODT2'' 1 = Inr (Num (mdecodt2 r)) \<and>
     avgtemp r = fdiv (fadd (mdecodt1 r) (mdecodt2 r)) (Fin 2)"
  assumes "for_each (add_flt_row fs) fl tbl0 = Inr tbl"
  shows "\<exists>rows. tbl = tbl0 @ rows \<and> list_all2 P fl rows"
  using assms(2)
proof (induction fl arbitrary: tbl0)
  case Nil
  then show ?case by simp
next
  case (Cons f fl)
  from Cons.prems obtain tbl1 where
    step: "add_flt_row fs tbl0 f = Inr tbl1" and rest: "for_each (add_flt_row fs) fl tbl1 = Inr tbl"
    by (auto split: sum.splits)
  from add_flt_row_Inr[OF step] obtain r where r: "tbl1 = tbl0 @ [r]" "P f r"
    unfolding P_def by fastforce
  from Cons.IH[OF rest] obtain rows where "tbl = tbl1 @ rows" "list_all2 P fl rows"
    by blast
  with r have "tbl = tbl0 @ (r # rows)" "list_all2 P (f # fl) (r # rows)" by simp_all
  then show ?case by blast
qed

lemma in_glob: "f \<in> set (glob_glob names pat) \<Longrightarrow> f \<in> set names \<and> fnmatch f pat"
  by (simp add: glob_glob_def)

lemma example_glob: "glob_glob example_names ''*_flt.fits'' = [''jcmc11ctq_flt.fits'']"
  by code_simp

lemma example_build: "build_flt_table example_disk [''jcmc11ctq_flt.fits''] = Inr [example_row]"
  by code_simp

text \<open>
  C1. The list of files is what the pattern \<^verbatim>\<open>*_flt.fits\<close> matches in the working
  directory. When the loop over it completes, the table has exactly one row for every
  file of the list, in the order of the list, and no other row: the row holds the file's
  name, the primary header's DATE-OBS and TIME-OBS joined by \<^verbatim>\<open>T\<close>, the primary header's
  FILTER1, and MDECODT1 and MDECODT2 of the first extension; every row's file is a name
  of the working directory that matches the pattern.
\<close>

theorem table_construction:
  assumes "flt_list = glob_glob names ''*_flt.fits''"
    and "build_flt_table fs flt_list = Inr flt_table"
  shows "map file flt_table = flt_list \<and>
     (\<forall>i<length flt_list.
        (\<exists>date time.
            fits_getval fs (flt_list ! i) ''DATE-OBS'' 0 = Inr (Str date) \<and>
            fits_getval fs (flt_list ! i) ''TIME-OBS'' 0 = Inr (Str time) \<and>
            start (flt_table ! i) = date @ ''T'' @ time) \<and>
        fits_getval fs (flt_list ! i) ''FILTER1'' 0 = Inr (filter1 (flt_table ! i)) \<and>
        fits_getval fs (flt_list ! i) ''MDECODT1'' 1 = Inr (Num (mdecodt1 (flt_table ! i))) \<and>
        fits_getval fs (flt_list ! i) ''MDECODT2'' 1 = Inr (Num (mdecodt2 (flt_table ! i)))) \<and>
     (\<forall>r\<in>set flt_table. file r \<in> set names \<and> fnmatch (file r) ''*_flt.fits'')"
proof -
  from for_each_add_rows[OF assms(2)[unfolded build_flt_table_def]]
  have all2: "list_all2 (\<lambda>f r. file r = f \<and>
     (\<exists>d t. fits_getval fs f ''DATE-OBS'' 0 = Inr (Str d) \<and>
            fits_getval fs f ''TIME-OBS'' 0 = Inr (Str t) \<and>
            start r = d @ ''T'' @ t) \<and>
     fits_getval fs f ''FILTER1'' 0 = Inr (filter1 r) \<and>
     fits_getval fs f ''MDECODT1'' 1 = Inr (Num (mdecodt1 r)) \<and>
     fits_getval fs f ''MDECODT2'' 1 = Inr (Num (mdecodt2 r)) \<and>
     avgtemp r = fdiv (fadd (mdecodt1 r) (mdecodt2 r)) (Fin 2)) flt_list flt_table"
    by simp
  then have len: "length flt_list = length flt_table"
    by (rule list_all2_lengthD)
  have nth: "file (flt_table ! i) = flt_list ! i" if "i < length flt_list" for i
    using list_all2_nthD[OF all2 that] by simp
  have files: "map file flt_table = flt_list"
    using len nth by (simp add: list_eq_iff_nth_eq)
  have rows: "(\<exists>date time.
            fits_getval fs (flt_list ! i) ''DATE-OBS'' 0 = Inr (Str date) \<and>
            fits_getval fs (flt_list ! i) ''TIME-OBS'' 0 = Inr (Str time) \<and>
            start (flt_table ! i) = date @ ''T'' @ time) \<and>
        fits_getval fs (flt_list ! i) ''FILTER1'' 0 = Inr (filter1 (flt_table ! i)) \<and>
        fits_getval fs (flt_list ! i) ''MDECODT1'' 1 = Inr (Num (mdecodt1 (flt_table ! i))) \<and>
        fits_getval fs (flt_list ! i) ''MDECODT2'' 1 = Inr (Num (mdecodt2 (flt_table ! i)))"
    if "i < length flt_list" for i
    using list_all2_nthD[OF all2 that] by simp
  have pat: "file r \<in> set names \<and> fnmatch (file r) ''*_flt.fits''" if "r \<in> set flt_table" for r
  proof -
    from that have "file r \<in> set (map file flt_table)" by simp
    with files assms(1) show ?thesis using in_glob by metis
  qed
  from files rows pat show ?thesis by blast
qed

theorem table_construction_witness:
  "glob_glob example_names ''*_flt.fits'' = [''jcmc11ctq_flt.fits''] \<and>
   build_flt_table example_disk [''jcmc11ctq_flt.fits''] = Inr [example_row] \<and>
   map file [example_row] = [''jcmc11ctq_flt.fits''] \<and>
   fits_getval example_disk ''jcmc11ctq_flt.fits'' ''FILTER1'' 0 = Inr (filter1 example_row)"
proof -
  have g: "glob_glob example_names ''*_flt.fits'' = [''jcmc11ctq_flt.fits'']"
    by code_simp
  from table_construction[OF g[symmetric] example_build]
  have "map file [example_row] = [''jcmc11ctq_flt.fits'']"
    and "fits_getval example_disk ([''jcmc11ctq_flt.fits''] ! 0) ''FILTER1'' 0 = Inr (filter1 ([example_row] ! 0))"
    by simp_all
  then have "map file [example_row] = [''jcmc11ctq_flt.fits'']"
    and "fits_getval example_disk ''jcmc11ctq_flt.fits'' ''FILTER1'' 0 = Inr (filter1 example_row)"
    by simp_all
  with g example_build show ?thesis by blast
qed

text \<open>
  C2. After \<^verbatim>\<open>flt_table.sort('avgtemp')\<close> the table holds the same rows as before, each
  row whole, in non-decreasing order of \<^verbatim>\<open>avgtemp\<close> (a row whose value is not a number
  comes last); no other column takes part.
\<close>

theorem table_sorting:
  "mset (sort_avgtemp tbl) = mset tbl \<and>
   sorted_wrt (\<lambda>r r'. fle (avgtemp r) (avgtemp r') \<or> avgtemp r' = NaN) (sort_avgtemp tbl)"
proof -
  have le: "sort_position x \<le> sort_position y \<Longrightarrow> fle x y \<or> y = NaN" for x y
    by (cases x; cases y) auto
  have "sorted (map (\<lambda>r. sort_position (avgtemp r)) (sort_avgtemp tbl))"
    by (simp add: sort_avgtemp_def)
  then have "sorted_wrt (\<lambda>r r'. sort_position (avgtemp r) \<le> sort_position (avgtemp r')) (sort_avgtemp tbl)"
    by (simp add: sorted_map)
  then have "sorted_wrt (\<lambda>r r'. fle (avgtemp r) (avgtemp r') \<or> avgtemp r' = NaN) (sort_avgtemp tbl)"
    by (rule sorted_wrt_mono_rel[rotated]) (use le in blast)
  then show ?thesis by (simp add: sort_avgtemp_def)
qed

theorem table_sorting_witness:
  "map file (sort_avgtemp example_table) = [''cold_flt.fits'', ''jcmc11ctq_flt.fits'', ''hot_flt.fits''] \<and>
   mset (sort_avgtemp example_table) = mset example_table"
  using table_sorting[of example_table]
  by code_simp

section \<open>Dark frames in copies of science files\<close>

lemma fits_open_Inr:
  "fits_open fs name = Inr hdul \<longleftrightarrow>
     name \<noteq> [] \<and> resolve name \<noteq> [] \<and> \<not> names_dir name \<and>
     fs (resolve name) = Some (File hdul)"
  by (auto simp: fits_open_def split: option.splits node.splits)

lemma set_data_Inr:
  "set_data hdu n v = Inr hdu1 \<longleftrightarrow>
     n < length hdu \<and>
     (\<exists>a a'. data (hdu ! n) = Some a \<and> assign_all a v = Inr a' \<and>
        hdu1 = hdu[n := (hdu ! n)\<lparr>data := Some a'\<rparr>])"
  by (auto simp: set_data_def split: option.splits sum.splits)

lemma upper_exptime: "upper ''exptime'' = ''EXPTIME''"
  by (simp add: upper_def upper_char_def)

lemma fits_open_same:
  "fits_open fs name = Inr hdu \<Longrightarrow> fs(resolve name \<mapsto> File hdu) = fs"
  by (auto simp: fits_open_Inr)

text \<open>The cell with its nested cases flattened.\<close>

lemma dark_substitute_eq:
  "dark_substitute fs flt_file drk_file new_file =
     (let fs1 = snd (os_system_cp fs flt_file new_file) in
      case fits_getdata fs1 drk_file of
        Inl e \<Rightarrow> Inl (e, fs1)
      | Inr darkdat \<Rightarrow>
     (case fits_getval fs1 drk_file ''exptime'' 0 of
        Inl e \<Rightarrow> Inl (e, fs1)
      | Inr exptime \<Rightarrow>
     (case fits_open fs1 new_file of
        Inl e \<Rightarrow> Inl (e, fs1)
      | Inr hdu \<Rightarrow>
     (case set_data hdu 1 darkdat of
        Inl e \<Rightarrow> Inl (e, fs1)
      | Inr hdu1 \<Rightarrow>
          Inr (fs1(resolve new_file \<mapsto>
                 File (hdu1[0 := (hdu1 ! 0)\<lparr>header := (header (hdu1 ! 0))(''EXPTIME'' \<mapsto> exptime)\<rparr>])))))))"
proof -
  let ?fs1 = "snd (os_system_cp fs flt_file new_file)"
  have hd: "set_header hdu1 0 ''exptime'' x =
      Inr (hdu1[0 := (hdu1 ! 0)\<lparr>header := (header (hdu1 ! 0))(''EXPTIME'' \<mapsto> x)\<rparr>])"
    if "set_data hdu 1 v = Inr hdu1" for hdu hdu1 :: "'a hdulist" and v x
    using that by (auto simp: set_data_Inr set_header_def upper_exptime)
  show ?thesis
    unfolding dark_substitute_def Let_def
    by (auto split: sum.splits simp: hd fits_open_same)
qed

lemma cp_file:
  assumes "fits_open fs flt_file = Inr orig"
    and "resolve new_file \<noteq> resolve flt_file"
    and "is_dir fs (butlast (resolve new_file))"
    and "fits_open (snd (os_system_cp fs flt_file new_file)) new_file = Inr hdu"
  shows "snd (os_system_cp fs flt_file new_file) = fs(resolve new_file \<mapsto> File orig) \<and> hdu = orig"
proof -
  let ?s = "resolve flt_file" and ?d = "resolve new_file"
  let ?fs1 = "snd (os_system_cp fs flt_file new_file)"
  from assms(1) have s: "flt_file \<noteq> []" "fs ?s = Some (File orig)"
    by (simp_all add: fits_open_Inr)
  from assms(1) have ns: "\<not> names_dir flt_file" by (simp add: fits_open_Inr)
  from assms(4) have d: "new_file \<noteq> []" "?d \<noteq> []" "?fs1 ?d = Some (File hdu)"
    and nd: "\<not> names_dir new_file"
    by (simp_all add: fits_open_Inr)
  have nodir: "\<not> is_dir fs ?d"
  proof
    assume dir: "is_dir fs ?d"
    with d(2) have "fs ?d = Some Dir" by (simp add: is_dir_def)
    moreover have "?d @ [last ?s] \<noteq> ?d" by simp
    ultimately have "?fs1 ?d = Some Dir"
      using s d(1) dir by (auto simp: os_system_cp_def Let_def)
    with d(3) show False by simp
  qed
  with s d(1) ns nd assms(2,3) have "?fs1 = fs(?d \<mapsto> File orig)"
    by (auto simp: os_system_cp_def Let_def)
  with d(3) show ?thesis by simp
qed

lemma fits_open_other:
  "resolve name \<noteq> p \<Longrightarrow> fits_open (fs(p \<mapsto> x)) name = Inr h \<Longrightarrow> fits_open fs name = Inr h"
  by (simp add: fits_open_Inr)

lemma fits_getdata_other:
  assumes "resolve name \<noteq> p" and "fits_getdata (fs(p \<mapsto> x)) name = Inr a"
  shows "fits_getdata fs name = Inr a"
proof -
  from assms(2) obtain h where h: "fits_open (fs(p \<mapsto> x)) name = Inr h"
    by (auto simp: fits_getdata_def split: sum.splits)
  from fits_open_other[OF assms(1) h] h assms(2) show ?thesis
    by (simp add: fits_getdata_def)
qed

lemma fits_getval_other:
  assumes "resolve name \<noteq> p" and "fits_getval (fs(p \<mapsto> x)) name k n = Inr v"
  shows "fits_getval fs name k n = Inr v"
proof -
  from assms(2) obtain h where h: "fits_open (fs(p \<mapsto> x)) name = Inr h"
    by (auto simp: fits_getval_def split: sum.splits)
  from fits_open_other[OF assms(1) h] h assms(2) show ?thesis
    by (simp add: fits_getval_def)
qed

lemma assign_all_Inr: "assign_all a v = Inr a' \<Longrightarrow> a' = broadcast_to v (shape a)"
  by (auto simp: assign_all_def split: if_splits)

lemma example_dark1:
  "dark1_cell example_disk = Inr (example_disk([''dark1.fits''] \<mapsto> File example_copy))"
  unfolding dark1_cell_def dark_substitute_eq
  by (simp add: Let_def os_system_cp_def fits_getdata_def fits_getval_def fits_open_def
      names_dir_def basename_def
      set_data_def assign_all_def shape_def broadcast_to_def upper_def upper_char_def
      resolve_def is_dir_def example_disk_def example_flt_def example_raw_def example_copy_def)

text \<open>
  C8. The science file can be opened, the copy's name is neither the science file's nor
  the dark file's, and the copy's directory exists. When the cell completes, the disk
  differs from the disk before only at the copy: the science file and the dark file are
  as they were. The copy has the header-data units of the science file, where the array
  of extension 1 holds the dark data (in the shape the array had) and the primary header
  holds the dark file's exposure time under EXPTIME: every other array, every header of
  an extension, and every other card of the primary header is the science file's.
\<close>

theorem dark_frame_effect:
  assumes "fits_open fs flt_file = Inr orig"
    and "resolve new_file \<noteq> resolve flt_file"
    and "resolve new_file \<noteq> resolve drk_file"
    and "is_dir fs (butlast (resolve new_file))"
    and "dark_substitute fs flt_file drk_file new_file = Inr fs'"
  shows "\<exists>copy darkdat exptime a.
     fs' = fs(resolve new_file \<mapsto> File copy) \<and>
     fs' (resolve flt_file) = fs (resolve flt_file) \<and>
     fs' (resolve drk_file) = fs (resolve drk_file) \<and>
     fits_getdata fs drk_file = Inr darkdat \<and>
     fits_getval fs drk_file ''exptime'' 0 = Inr exptime \<and>
     length copy = length orig \<and> 1 < length orig \<and>
     (\<forall>i<length orig. i \<noteq> 1 \<longrightarrow> data (copy ! i) = data (orig ! i)) \<and>
     (\<forall>i<length orig. i \<noteq> 0 \<longrightarrow> header (copy ! i) = header (orig ! i)) \<and>
     (\<forall>k. k \<noteq> ''EXPTIME'' \<longrightarrow> header (copy ! 0) k = header (orig ! 0) k) \<and>
     header (copy ! 0) ''EXPTIME'' = Some exptime \<and>
     data (orig ! 1) = Some a \<and>
     data (copy ! 1) = Some (broadcast_to darkdat (shape a))"
proof -
  let ?fs1 = "snd (os_system_cp fs flt_file new_file)" and ?d = "resolve new_file"
  from assms(5) obtain darkdat exptime hdu hdu1 where
    gd: "fits_getdata ?fs1 drk_file = Inr darkdat" and
    gv: "fits_getval ?fs1 drk_file ''exptime'' 0 = Inr exptime" and
    op: "fits_open ?fs1 new_file = Inr hdu" and
    sd: "set_data hdu 1 darkdat = Inr hdu1" and
    fs': "fs' = ?fs1(?d \<mapsto>
            File (hdu1[0 := (hdu1 ! 0)\<lparr>header := (header (hdu1 ! 0))(''EXPTIME'' \<mapsto> exptime)\<rparr>]))"
    unfolding dark_substitute_eq Let_def by (auto split: sum.splits)
  from cp_file[OF assms(1,2,4) op] have fs1: "?fs1 = fs(?d \<mapsto> File orig)" and hdu: "hdu = orig"
    by simp_all
  from sd hdu obtain a a' where len: "1 < length orig" and a: "data (orig ! 1) = Some a"
    and a': "assign_all a darkdat = Inr a'" and hdu1: "hdu1 = orig[1 := (orig ! 1)\<lparr>data := Some a'\<rparr>]"
    by (auto simp: set_data_Inr)
  define copy where "copy = hdu1[0 := (hdu1 ! 0)\<lparr>header := (header (hdu1 ! 0))(''EXPTIME'' \<mapsto> exptime)\<rparr>]"
  have 1: "fs' = fs(?d \<mapsto> File copy)" using fs' fs1 by (simp add: copy_def)
  have 2: "fs' (resolve flt_file) = fs (resolve flt_file)" "fs' (resolve drk_file) = fs (resolve drk_file)"
    using 1 assms(2,3) by auto
  have 3: "fits_getdata fs drk_file = Inr darkdat"
    using gd fs1 assms(3) fits_getdata_other by metis
  have 4: "fits_getval fs drk_file ''exptime'' 0 = Inr exptime"
    using gv fs1 assms(3) fits_getval_other by metis
  have 5: "length copy = length orig" by (simp add: copy_def hdu1)
  have 6: "data (copy ! i) = data (orig ! i)" if "i < length orig" "i \<noteq> 1" for i
    using that by (cases "i = 0") (auto simp: copy_def hdu1)
  have 7: "header (copy ! i) = header (orig ! i)" if "i < length orig" "i \<noteq> 0" for i
    using that by (cases "i = 1") (auto simp: copy_def hdu1)
  from len have len0: "0 < length orig" by (cases orig) simp_all
  have c0: "copy ! 0 = (orig ! 0)\<lparr>header := (header (orig ! 0))(''EXPTIME'' \<mapsto> exptime)\<rparr>"
    using len0 by (simp add: copy_def hdu1)
  have 8: "header (copy ! 0) k = header (orig ! 0) k" if "k \<noteq> ''EXPTIME''" for k
    using that by (simp add: c0)
  have 9: "header (copy ! 0) ''EXPTIME'' = Some exptime"
    by (simp add: c0)
  have 10: "data (copy ! 1) = Some (broadcast_to darkdat (shape a))"
    using len assign_all_Inr[OF a'] by (auto simp: copy_def hdu1)
  from 1 2 3 4 5 len 6 7 8 9 a 10 show ?thesis by blast
qed

theorem dark_frame_effect_witness:
  "fits_open example_disk ''jcmc11ctq_flt.fits'' = Inr example_flt \<and>
   resolve ''dark1.fits'' \<noteq> resolve ''jcmc11ctq_flt.fits'' \<and>
   resolve ''dark1.fits'' \<noteq> resolve ''jcrx01iiq_raw.fits'' \<and>
   is_dir example_disk (butlast (resolve ''dark1.fits'')) \<and>
   dark_substitute example_disk ''jcmc11ctq_flt.fits'' ''jcrx01iiq_raw.fits'' ''dark1.fits''
     = Inr (example_disk([''dark1.fits''] \<mapsto> File example_copy)) \<and>
   (\<exists>copy. example_disk([''dark1.fits''] \<mapsto> File example_copy)
             = example_disk(resolve ''dark1.fits'' \<mapsto> File copy) \<and>
           header (copy ! 1) = header (example_flt ! 1) \<and>
           data (copy ! 2) = data (example_flt ! 2))"
proof -
  have o: "fits_open example_disk ''jcmc11ctq_flt.fits'' = Inr example_flt"
    by (simp add: fits_open_def resolve_def example_disk_def names_dir_def basename_def)
  have n1: "resolve ''dark1.fits'' \<noteq> resolve ''jcmc11ctq_flt.fits''"
    and n2: "resolve ''dark1.fits'' \<noteq> resolve ''jcrx01iiq_raw.fits''"
    and d: "is_dir example_disk (butlast (resolve ''dark1.fits''))"
    by (simp_all add: resolve_def is_dir_def)
  have run: "dark_substitute example_disk ''jcmc11ctq_flt.fits'' ''jcrx01iiq_raw.fits'' ''dark1.fits''
     = Inr (example_disk([''dark1.fits''] \<mapsto> File example_copy))"
    using example_dark1 by (simp add: dark1_cell_def)
  have len: "1 < length example_flt" "2 < length example_flt" by (simp_all add: example_flt_def)
  from dark_frame_effect[OF o n1 n2 d run] len
  have "\<exists>copy. example_disk([''dark1.fits''] \<mapsto> File example_copy)
             = example_disk(resolve ''dark1.fits'' \<mapsto> File copy) \<and>
           header (copy ! 1) = header (example_flt ! 1) \<and>
           data (copy ! 2) = data (example_flt ! 2)"
    by (metis zero_neq_numeral one_neq_zero numeral_eq_one_iff semiring_norm(85))
  with o n1 n2 d run show ?thesis by blast
qed

section \<open>Exceptions\<close>























section \<open>Applying the pixel area map\<close>

lemma broadcast_same:
  assumes "i < fst (shape a)" "j < snd (shape a)"
  shows "broadcast_to a (shape a) ! i ! j = a ! i ! j"
  using assms by (auto simp: broadcast_to_def)

lemma np_multiply_same_shape:
  assumes "shape a = shape b"
  shows "\<exists>c. np_multiply a b = Inr c \<and> length c = fst (shape a) \<and>
           (\<forall>i<fst (shape a). length (c ! i) = snd (shape a) \<and>
              (\<forall>j<snd (shape a). c ! i ! j = a ! i ! j * b ! i ! j))"
proof -
  obtain r c where s: "shape a = (r, c)" by (cases "shape a")
  with assms have sb: "shape b = (r, c)" by simp
  have m: "np_multiply a b =
     Inr (map2 (map2 (*)) (broadcast_to a (r, c)) (broadcast_to b (r, c)))"
    by (simp add: np_multiply_def s sb broadcast_dim_def)
  have len: "length (broadcast_to x (r, c)) = r" for x :: "'a ndarray"
    by (simp add: broadcast_to_def)
  have row: "length (broadcast_to x (r, c) ! i) = c" if "i < r" for x :: "'a ndarray" and i
    using that by (simp add: broadcast_to_def)
  have el: "map2 (map2 (*)) (broadcast_to a (r, c)) (broadcast_to b (r, c)) ! i ! j
              = a ! i ! j * b ! i ! j" if "i < r" "j < c" for i j
    using that broadcast_same[of i a j] broadcast_same[of i b j] s sb
    by (simp add: len row)
  show ?thesis using m el by (auto simp: s len row)
qed

lemma example_plot':
  "triple_plot_pam example_disk [] ''jcmc11ctq_flt.fits'' ''j6me13qhq_wfc2_pam.fits'' = Inr example_frame"
  by code_simp

lemma example_wfc2:
  "wfc2_pam_correction example_pam_from_file example_disk [] ''jcmc11ctq_flt.fits''
     = Inr example_frame"
  by code_simp

text \<open>
  C3. When \<^verbatim>\<open>triple_plot_pam\<close> completes, \<^verbatim>\<open>pamd_img\<close> is a new array, the product of
  the science array read from extension 1 and the map read from the map file; for arrays
  of equal shape it has that shape and each of its pixels is the product of the two
  pixels at the same place. The two arrays read are afterwards what was read, and every
  array that was in the heap before is as it was. The map of the first plot is read from
  the disk as the two calls of \<^verbatim>\<open>pamutils.pam_from_file\<close> before it left it, whatever
  that library function does.
\<close>

theorem pam_application:
  "(triple_plot_pam fs h flt_file pam_file = Inr fr \<longrightarrow>
     (\<exists>a b. fits_getdata_ext fs flt_file 1 = Inr a \<and> fits_getdata fs pam_file = Inr b \<and>
        heap fr ! fl_img fr = a \<and> heap fr ! pam_img fr = b \<and>
        pamd_img fr \<noteq> fl_img fr \<and> pamd_img fr \<noteq> pam_img fr \<and>
        take (length h) (heap fr) = h \<and>
        np_multiply a b = Inr (heap fr ! pamd_img fr) \<and>
        (shape a = shape b \<and> rect a \<and> rect b \<longrightarrow>
           length (heap fr ! pamd_img fr) = fst (shape a) \<and>
           (\<forall>i<fst (shape a). length (heap fr ! pamd_img fr ! i) = snd (shape a) \<and>
              (\<forall>j<snd (shape a). heap fr ! pamd_img fr ! i ! j = a ! i ! j * b ! i ! j))))) \<and>
   (wfc2_pam_correction pam_from_file fs h flt_file = Inr fr' \<longrightarrow>
     (\<exists>fs1 fs2. pam_from_file fs flt_file 1 ''j6me13qhq_wfc2_pam.fits'' = Inr fs1 \<and>
        pam_from_file fs1 flt_file 4 ''j6me13qhq_wfc1_pam.fits'' = Inr fs2 \<and>
        triple_plot_pam fs2 h flt_file ''j6me13qhq_wfc2_pam.fits'' = Inr fr' \<and>
        fits_getdata fs2 ''j6me13qhq_wfc2_pam.fits'' = Inr (heap fr' ! pam_img fr')))"
proof (intro conjI impI)
  assume run: "triple_plot_pam fs h flt_file pam_file = Inr fr"
  then obtain a b c where
    a: "fits_getdata_ext fs flt_file 1 = Inr a" and
    b: "fits_getdata fs pam_file = Inr b" and
    c: "np_multiply ((h @ [a, b]) ! length h) ((h @ [a, b]) ! Suc (length h)) = Inr c" and
    fr: "fr = \<lparr>heap = h @ [a, b, c], fl_img = length h, pam_img = Suc (length h),
               pamd_img = Suc (Suc (length h))\<rparr>"
    by (auto simp: triple_plot_pam_def alloc_def Let_def split: sum.splits)
  have n0: "(h @ [a, b]) ! length h = a" by simp
  have n1: "(h @ [a, b]) ! Suc (length h) = b"
    by (simp add: nth_append)
  from c have c': "np_multiply a b = Inr c" by (simp only: n0 n1)
  have g0: "heap fr ! fl_img fr = a" by (simp add: fr)
  have g1: "heap fr ! pam_img fr = b" by (simp add: fr nth_append)
  have g2: "heap fr ! pamd_img fr = c" by (simp add: fr nth_append)
  have g3: "take (length h) (heap fr) = h" by (simp add: fr)
  have g4: "pamd_img fr \<noteq> fl_img fr" "pamd_img fr \<noteq> pam_img fr" by (simp_all add: fr)
  have g5: "length c = fst (shape a) \<and>
        (\<forall>i<fst (shape a). length (c ! i) = snd (shape a) \<and>
           (\<forall>j<snd (shape a). c ! i ! j = a ! i ! j * b ! i ! j))" if "shape a = shape b"
    using np_multiply_same_shape[OF that] c' by auto
  from a b g0 g1 g2 g3 g4 g5 c'
  show "\<exists>a b. fits_getdata_ext fs flt_file 1 = Inr a \<and> fits_getdata fs pam_file = Inr b \<and>
        heap fr ! fl_img fr = a \<and> heap fr ! pam_img fr = b \<and>
        pamd_img fr \<noteq> fl_img fr \<and> pamd_img fr \<noteq> pam_img fr \<and>
        take (length h) (heap fr) = h \<and>
        np_multiply a b = Inr (heap fr ! pamd_img fr) \<and>
        (shape a = shape b \<and> rect a \<and> rect b \<longrightarrow>
           length (heap fr ! pamd_img fr) = fst (shape a) \<and>
           (\<forall>i<fst (shape a). length (heap fr ! pamd_img fr ! i) = snd (shape a) \<and>
              (\<forall>j<snd (shape a). heap fr ! pamd_img fr ! i ! j = a ! i ! j * b ! i ! j)))"
    by auto
next
  assume run: "wfc2_pam_correction pam_from_file fs h flt_file = Inr fr'"
  then obtain fs1 fs2 where
    lib: "pam_from_file fs flt_file 1 ''j6me13qhq_wfc2_pam.fits'' = Inr fs1" and
    lib4: "pam_from_file fs1 flt_file 4 ''j6me13qhq_wfc1_pam.fits'' = Inr fs2" and
    plot: "triple_plot_pam fs2 h flt_file ''j6me13qhq_wfc2_pam.fits'' = Inr fr'"
    by (auto simp: wfc2_pam_correction_def split: sum.splits)
  from plot obtain a b c where
    b: "fits_getdata fs2 ''j6me13qhq_wfc2_pam.fits'' = Inr b" and
    fr: "fr' = \<lparr>heap = h @ [a, b, c], fl_img = length h, pam_img = Suc (length h),
               pamd_img = Suc (Suc (length h))\<rparr>"
    by (auto simp: triple_plot_pam_def alloc_def Let_def split: sum.splits)
  have "heap fr' ! pam_img fr' = b" by (simp add: fr nth_append)
  with lib lib4 plot b
  show "\<exists>fs1 fs2. pam_from_file fs flt_file 1 ''j6me13qhq_wfc2_pam.fits'' = Inr fs1 \<and>
        pam_from_file fs1 flt_file 4 ''j6me13qhq_wfc1_pam.fits'' = Inr fs2 \<and>
        triple_plot_pam fs2 h flt_file ''j6me13qhq_wfc2_pam.fits'' = Inr fr' \<and>
        fits_getdata fs2 ''j6me13qhq_wfc2_pam.fits'' = Inr (heap fr' ! pam_img fr')"
    by auto
qed

theorem pam_application_witness:
  "triple_plot_pam example_disk [] ''jcmc11ctq_flt.fits'' ''j6me13qhq_wfc2_pam.fits'' = Inr example_frame \<and>
   wfc2_pam_correction example_pam_from_file example_disk [] ''jcmc11ctq_flt.fits''
     = Inr example_frame \<and>
   fits_getdata
     (example_disk([''j6me13qhq_wfc2_pam.fits''] \<mapsto> File example_pam,
                   [''j6me13qhq_wfc1_pam.fits''] \<mapsto> File example_pam))
     ''j6me13qhq_wfc2_pam.fits'' = Inr [[10, 10], [2, 2]] \<and>
   shape [[1, 2], [3, 4::int]] = shape [[10, 10], [2, 2::int]] \<and>
   rect [[1, 2], [3, 4::int]] \<and> rect [[10, 10], [2, 2::int]] \<and>
   heap example_frame ! fl_img example_frame = [[1, 2], [3, 4]] \<and>
   heap example_frame ! pam_img example_frame = [[10, 10], [2, 2]] \<and>
   heap example_frame ! pamd_img example_frame ! 1 ! 0 = 3 * 2"
proof -
  from pam_application[THEN conjunct1, rule_format, OF example_plot']
  obtain a b where ab: "heap example_frame ! fl_img example_frame = a"
    "heap example_frame ! pam_img example_frame = b"
    and el: "shape a = shape b \<and> rect a \<and> rect b \<longrightarrow>
           length (heap example_frame ! pamd_img example_frame) = fst (shape a) \<and>
           (\<forall>i<fst (shape a). length (heap example_frame ! pamd_img example_frame ! i) = snd (shape a) \<and>
              (\<forall>j<snd (shape a). heap example_frame ! pamd_img example_frame ! i ! j = a ! i ! j * b ! i ! j))"
    by blast
  have a: "a = [[1, 2], [3, 4]]" and b: "b = [[10, 10], [2, 2]]"
    using ab by (simp_all add: example_frame_def)
  have sh: "shape a = shape b" "rect a" "rect b" by (simp_all add: a b shape_def rect_def)
  have "(1::nat) < fst (shape a)" "(0::nat) < snd (shape a)" by (simp_all add: a shape_def)
  with el sh have "heap example_frame ! pamd_img example_frame ! 1 ! 0 = a ! 1 ! 0 * b ! 1 ! 0"
    by blast
  then have el': "heap example_frame ! pamd_img example_frame ! 1 ! 0 = 3 * 2" by (simp add: a b)
  from pam_application[THEN conjunct2, rule_format, OF example_wfc2]
  obtain fs1 fs2 where
    "example_pam_from_file example_disk ''jcmc11ctq_flt.fits'' 1 ''j6me13qhq_wfc2_pam.fits'' = Inr fs1"
    "example_pam_from_file fs1 ''jcmc11ctq_flt.fits'' 4 ''j6me13qhq_wfc1_pam.fits'' = Inr fs2"
    "fits_getdata fs2 ''j6me13qhq_wfc2_pam.fits'' = Inr (heap example_frame ! pam_img example_frame)"
    by blast
  then have "fits_getdata
     (example_disk([''j6me13qhq_wfc2_pam.fits''] \<mapsto> File example_pam,
                   [''j6me13qhq_wfc1_pam.fits''] \<mapsto> File example_pam))
     ''j6me13qhq_wfc2_pam.fits'' = Inr [[10, 10], [2, 2]]"
    using ab b by (auto simp: example_pam_from_file_def resolve_def)
  with el' example_plot' example_wfc2 ab a b sh show ?thesis by simp
qed

section \<open>Names read before they are bound\<close>

text \<open>
  C5. Running the code cells of the pixel-area-map notebook from the top stops in the
  fourth code cell, which reads \<^verbatim>\<open>flt_file\<close> before the fifth binds it. In the
  dark-analysis notebook every name is bound before it is read.
\<close>

theorem undefined_name_in_linear_run:
  "run_all pam_notebook = Some (4, ''flt_file'') \<and> run_all dark_notebook = None"
  by code_simp

section \<open>Rounding to binary64\<close>

lemma two_powi_pos [simp]: "0 < (2::rat) powi k"
  by simp

lemma two_powi_less_iff: "(2::rat) powi a < 2 powi b \<longleftrightarrow> a < b"
proof
  assume l: "(2::rat) powi a < 2 powi b"
  show "a < b"
  proof (rule ccontr)
    assume "\<not> a < b"
    then have "b \<le> a" by simp
    then have "(2::rat) powi b \<le> 2 powi a" by (intro power_int_increasing) simp_all
    with l show False by simp
  qed
next
  assume "a < b"
  then show "(2::rat) powi a < 2 powi b" by (intro power_int_strict_increasing) simp_all
qed

lemma two_powi_le_iff: "(2::rat) powi a \<le> 2 powi b \<longleftrightarrow> a \<le> b"
  using two_powi_less_iff[of b a] by (auto simp: not_less[symmetric])

lemma two_powi_Suc: "(2::rat) powi (k + 1) = 2 * 2 powi k"
  by (simp add: power_int_add)

lemma two_powi_diff: "(2::rat) powi (a - b) = 2 powi a / 2 powi b"
  by (simp add: power_int_diff)

lemma two_powi_add: "(2::rat) powi (a + b) = 2 powi a * 2 powi b"
  by (simp add: power_int_add)

lemma of_int_pow_nat: "0 \<le> k \<Longrightarrow> (of_int (2 ^ nat k) :: rat) = 2 powi k"
  by (simp add: power_int_nonneg_exp)

lemma ilog2_bounds:
  assumes "0 < x"
  shows "2 powi (ilog2 x) \<le> x \<and> x < 2 powi (ilog2 x + 1)"
proof -
  obtain n d where q: "quotient_of x = (n, d)" by (cases "quotient_of x")
  then have d: "0 < d" and x: "x = of_int n / of_int d"
    using quotient_of_denom_pos quotient_of_div by blast+
  from assms x d have n: "0 < n"
    by (simp add: zero_less_divide_iff)
  let ?k = "bitlen n - bitlen d"
  from bitlen_bounds[OF n] have n1: "2 ^ nat (bitlen n - 1) \<le> n" and n2: "n < 2 ^ nat (bitlen n)"
    by simp_all
  from bitlen_bounds[OF d] have d1: "2 ^ nat (bitlen d - 1) \<le> d" and d2: "d < 2 ^ nat (bitlen d)"
    by simp_all
  have bn: "1 \<le> bitlen n" using n bitlen_eq_zero_iff[of n] bitlen_nonneg[of n] by linarith
  have bd: "1 \<le> bitlen d" using d bitlen_eq_zero_iff[of d] bitlen_nonneg[of d] by linarith
  have rn1: "2 powi (bitlen n - 1) \<le> (of_int n :: rat)"
  proof -
    have "(of_int (2 ^ nat (bitlen n - 1)) :: rat) \<le> of_int n" using n1 by (simp only: of_int_le_iff)
    then show ?thesis using bn by (simp only: of_int_pow_nat[of "bitlen n - 1"] diff_ge_0_iff_ge)
  qed
  have rn2: "(of_int n :: rat) < 2 powi (bitlen n)"
  proof -
    have "(of_int n :: rat) < of_int (2 ^ nat (bitlen n))" using n2 by (simp only: of_int_less_iff)
    then show ?thesis using bitlen_nonneg[of n] by (simp only: of_int_pow_nat[of "bitlen n"])
  qed
  have rd1: "2 powi (bitlen d - 1) \<le> (of_int d :: rat)"
  proof -
    have "(of_int (2 ^ nat (bitlen d - 1)) :: rat) \<le> of_int d" using d1 by (simp only: of_int_le_iff)
    then show ?thesis using bd by (simp only: of_int_pow_nat[of "bitlen d - 1"] diff_ge_0_iff_ge)
  qed
  have rd2: "(of_int d :: rat) < 2 powi (bitlen d)"
  proof -
    have "(of_int d :: rat) < of_int (2 ^ nat (bitlen d))" using d2 by (simp only: of_int_less_iff)
    then show ?thesis using bitlen_nonneg[of d] by (simp only: of_int_pow_nat[of "bitlen d"])
  qed
  have dpos: "(0::rat) < of_int d" using d by simp
  have up: "x < 2 powi (?k + 1)"
  proof -
    have "of_int n < (2::rat) powi (bitlen n - (bitlen d - 1)) * 2 powi (bitlen d - 1)"
      using rn2 by (simp add: two_powi_add[symmetric])
    also have "\<dots> \<le> 2 powi (bitlen n - (bitlen d - 1)) * of_int d"
      using rd1 by (simp add: mult_left_mono)
    finally have "of_int n / of_int d < (2::rat) powi (bitlen n - (bitlen d - 1))"
      using dpos by (simp add: pos_divide_less_eq)
    moreover have "bitlen n - (bitlen d - 1) = ?k + 1" by simp
    ultimately show ?thesis by (simp only: x)
  qed
  have lo: "2 powi (?k - 1) < x"
  proof -
    have "(2::rat) powi (?k - 1) * of_int d < 2 powi (?k - 1) * 2 powi (bitlen d)"
      using rd2 by (simp add: mult_strict_left_mono)
    also have "\<dots> = 2 powi (bitlen n - 1)"
      by (simp add: two_powi_add[symmetric])
    also have "\<dots> \<le> of_int n" by (rule rn1)
    finally show ?thesis using dpos by (simp add: x pos_less_divide_eq)
  qed
  show ?thesis
  proof (cases "2 powi ?k \<le> x")
    case True
    then have "ilog2 x = ?k" by (simp add: ilog2_def q)
    with True up show ?thesis by simp
  next
    case False
    then have "ilog2 x = ?k - 1" by (simp add: ilog2_def q)
    with False lo show ?thesis by simp
  qed
qed

lemma ilog2_unique:
  assumes "2 powi k \<le> x" "x < 2 powi (k + 1)"
  shows "ilog2 x = k"
proof -
  have pos: "0 < x" using assms(1) two_powi_pos[of k] by linarith
  from ilog2_bounds[OF pos] have b: "2 powi (ilog2 x) \<le> x" "x < 2 powi (ilog2 x + 1)" by simp_all
  from b(1) assms(2) have "(2::rat) powi (ilog2 x) < 2 powi (k + 1)" by linarith
  then have "ilog2 x < k + 1" by (simp add: two_powi_less_iff)
  moreover from assms(1) b(2) have "(2::rat) powi k < 2 powi (ilog2 x + 1)" by linarith
  then have "k < ilog2 x + 1" by (simp add: two_powi_less_iff)
  ultimately show ?thesis by simp
qed

lemma ilog2_ge: "2 powi k \<le> x \<Longrightarrow> k \<le> ilog2 x"
proof -
  assume a: "2 powi k \<le> x"
  then have pos: "0 < x" using two_powi_pos[of k] by linarith
  from ilog2_bounds[OF pos] a have "(2::rat) powi k < 2 powi (ilog2 x + 1)" by linarith
  then show ?thesis by (simp add: two_powi_less_iff)
qed

lemma ilog2_less: "0 < x \<Longrightarrow> x < 2 powi k \<Longrightarrow> ilog2 x < k"
proof -
  assume pos: "0 < x" and a: "x < 2 powi k"
  from ilog2_bounds[OF pos] a have "(2::rat) powi (ilog2 x) < 2 powi k" by linarith
  then show ?thesis by (simp add: two_powi_less_iff)
qed

lemma rhe_floor: "\<lfloor>t\<rfloor> \<le> round_half_even t \<and> round_half_even t \<le> \<lfloor>t\<rfloor> + 1"
  by (simp add: round_half_even_def Let_def)

lemma rhe_of_int [simp]: "round_half_even (of_int n) = n"
  by (simp add: round_half_even_def Let_def)

lemma rhe_ge: "of_int n \<le> t \<Longrightarrow> n \<le> round_half_even t"
proof -
  assume "of_int n \<le> t"
  then have "n \<le> \<lfloor>t\<rfloor>" by (simp add: le_floor_iff)
  with rhe_floor[of t] show ?thesis by linarith
qed

lemma rhe_le: "t \<le> of_int n \<Longrightarrow> round_half_even t \<le> n"
proof (cases "t = of_int n")
  case True
  then show ?thesis by simp
next
  case False
  assume "t \<le> of_int n"
  with False have "t < of_int n" by simp
  then have "\<lfloor>t\<rfloor> < n" by (simp add: floor_less_iff)
  with rhe_floor[of t] show ?thesis by linarith
qed

lemma rhe_neg: "round_half_even (- t) = - round_half_even t"
proof (cases "t = of_int \<lfloor>t\<rfloor>")
  case True
  then obtain n where "t = of_int n" ..
  then show ?thesis by (simp flip: of_int_minus)
next
  case False
  let ?f = "\<lfloor>t\<rfloor>"
  have fl: "\<lfloor>- t\<rfloor> = - ?f - 1"
  proof -
    have "of_int ?f < t" using False of_int_floor_le[of t] by (metis order_le_less)
    moreover have "t < of_int ?f + 1" by linarith
    ultimately show ?thesis by (simp add: floor_unique)
  qed
  have "of_int ?f < t" using False of_int_floor_le[of t] by (metis order_le_less)
  then have r: "0 < t - of_int ?f" "t - of_int ?f < 1"
    by linarith+
  have ev: "even (- ?f - 1) \<longleftrightarrow> odd ?f" by simp
  show ?thesis
    using r unfolding round_half_even_def Let_def fl ev
    by (auto simp: algebra_simps)
qed

lemma quantum_neg [simp]: "quantum (- x) = quantum x"
  by (simp add: quantum_def)

lemma quantum_ge: "- 1074 \<le> quantum x"
  by (simp add: quantum_def)

lemma rnd_0 [simp]: "rnd 0 = 0"
  using rhe_of_int[of 0] by (simp add: rnd_def)

text \<open>Rounding does not cross a multiple of the quantum.\<close>

lemma rnd_le_multiple:
  assumes "x \<le> of_int m * 2 powi quantum x"
  shows "rnd x \<le> of_int m * 2 powi quantum x"
proof -
  have "x / 2 powi quantum x \<le> of_int m"
    using assms by (simp add: pos_divide_le_eq)
  then have "round_half_even (x / 2 powi quantum x) \<le> m" by (rule rhe_le)
  then have "(of_int (round_half_even (x / 2 powi quantum x)) :: rat) \<le> of_int m" by simp
  then show ?thesis unfolding rnd_def by (simp add: mult_right_mono)
qed

lemma rnd_ge_multiple:
  assumes "of_int m * 2 powi quantum x \<le> x"
  shows "of_int m * 2 powi quantum x \<le> rnd x"
proof -
  have "of_int m \<le> x / 2 powi quantum x"
    using assms by (simp add: pos_le_divide_eq)
  then have "m \<le> round_half_even (x / 2 powi quantum x)" by (rule rhe_ge)
  then have "(of_int m :: rat) \<le> of_int (round_half_even (x / 2 powi quantum x))" by simp
  then show ?thesis unfolding rnd_def by (simp add: mult_right_mono)
qed

lemma rnd_multiple:
  assumes "x = of_int m * 2 powi quantum x"
  shows "rnd x = x"
  using rnd_le_multiple[of x m] rnd_ge_multiple[of m x] assms by simp

lemma pow_multiple:
  assumes "e \<le> k"
  shows "(2::rat) powi k = of_int (2 ^ nat (k - e)) * 2 powi e"
proof -
  have "(2::rat) powi k = 2 powi (k - e) * 2 powi e" by (simp add: two_powi_add[symmetric])
  also have "(2::rat) powi (k - e) = of_int (2 ^ nat (k - e))"
    using assms by (simp add: power_int_nonneg_exp)
  finally show ?thesis .
qed

lemma rnd_neg: "rnd (- x) = - rnd x"
  by (simp add: rnd_def rhe_neg)

lemma overflow_powi: "overflow = 2 powi 1024"
  by (simp add: overflow_def)

lemma overflow_pos: "0 < overflow"
  by (simp add: overflow_def)

lemma is_double_iff: "is_double a \<longleftrightarrow> rnd a = a \<and> \<bar>a\<bar> < overflow"
  using overflow_pos by (auto simp: is_double_def rne_def)

lemma is_double_neg: "is_double (- a) \<longleftrightarrow> is_double a"
  by (simp add: is_double_iff rnd_neg)

lemma double_repr: "is_double a \<Longrightarrow> \<exists>m. a = of_int m * 2 powi quantum a"
  unfolding is_double_iff rnd_def by metis

lemma quantum_eq: "- 1074 < quantum x \<Longrightarrow> quantum x = ilog2 \<bar>x\<bar> - 52"
  by (simp add: quantum_def max_def split: if_splits)

lemma quantum_ilog2: "ilog2 \<bar>x\<bar> - 52 \<le> quantum x"
  by (simp add: quantum_def)

lemma abs_less_pow:
  assumes "x \<noteq> 0"
  shows "\<bar>x\<bar> < 2 powi (quantum x + 53)"
proof -
  from assms have "0 < \<bar>x\<bar>" by simp
  from ilog2_bounds[OF this] have "\<bar>x\<bar> < 2 powi (ilog2 \<bar>x\<bar> + 1)" by simp
  also have "\<dots> \<le> 2 powi (quantum x + 53)"
    using quantum_ilog2[of x] by (simp add: two_powi_le_iff)
  finally show ?thesis .
qed

lemma abs_ge_pow:
  assumes "x \<noteq> 0" "- 1074 < quantum x"
  shows "2 powi (quantum x + 52) \<le> \<bar>x\<bar>"
proof -
  from assms(1) have "0 < \<bar>x\<bar>" by simp
  from ilog2_bounds[OF this] have "2 powi (ilog2 \<bar>x\<bar>) \<le> \<bar>x\<bar>" by simp
  with quantum_eq[OF assms(2)] show ?thesis by simp
qed

lemma multiple_coarser:
  assumes "(b::rat) = of_int m * 2 powi e" "q \<le> e"
  shows "\<exists>m'. b = of_int m' * 2 powi q"
proof -
  from pow_multiple[OF assms(2)] assms(1)
  have "b = of_int (m * 2 ^ nat (e - q)) * 2 powi q" by (simp add: mult.assoc)
  then show ?thesis ..
qed

text \<open>Rounding does not cross a binary64 number.\<close>

lemma rnd_le_double:
  assumes "is_double b" "x \<le> b"
  shows "rnd x \<le> b"
proof (cases "x = 0")
  case True
  with assms show ?thesis by simp
next
  case x0: False
  from double_repr[OF assms(1)] obtain m where m: "b = of_int m * 2 powi quantum b" ..
  show ?thesis
  proof (cases "quantum x \<le> quantum b")
    case True
    from multiple_coarser[OF m True] obtain m' where "b = of_int m' * 2 powi quantum x" ..
    with rnd_le_multiple[of x m'] assms(2) show ?thesis by simp
  next
    case False
    then have lt: "quantum b < quantum x" by simp
    with quantum_ge[of b] have big: "- 1074 < quantum x" by linarith
    have babs: "\<bar>b\<bar> < 2 powi (quantum x + 52)"
    proof (cases "b = 0")
      case True
      then show ?thesis by simp
    next
      case False
      from abs_less_pow[OF False] have "\<bar>b\<bar> < 2 powi (quantum b + 53)" .
      also have "\<dots> \<le> 2 powi (quantum x + 52)" using lt by (simp add: two_powi_le_iff)
      finally show ?thesis .
    qed
    from abs_ge_pow[OF x0 big] have xabs: "2 powi (quantum x + 52) \<le> \<bar>x\<bar>" .
    have xneg: "x < 0"
    proof (rule ccontr)
      assume "\<not> x < 0"
      then have "\<bar>x\<bar> = x" by simp
      with xabs babs assms(2) show False by linarith
    qed
    have p: "(2::rat) powi (quantum x + 52) = of_int (2 ^ 52) * 2 powi quantum x"
      using pow_multiple[of "quantum x" "quantum x + 52"] by simp
    have "x \<le> of_int (- (2 ^ 52)) * 2 powi quantum x"
      using xabs xneg p by simp
    from rnd_le_multiple[OF this] have "rnd x \<le> - (2 powi (quantum x + 52))"
      using p by simp
    with babs show ?thesis by linarith
  qed
qed

lemma rnd_ge_double:
  assumes "is_double a" "a \<le> x"
  shows "a \<le> rnd x"
proof -
  from assms have "is_double (- a)" "- x \<le> - a" by (simp_all add: is_double_neg)
  from rnd_le_double[OF this] show ?thesis by (simp add: rnd_neg)
qed

lemma rnd_double: "is_double a \<Longrightarrow> rnd a = a"
  by (simp add: is_double_iff)

lemma rnd_big:
  assumes "overflow \<le> x"
  shows "overflow \<le> rnd x"
proof -
  have x0: "x \<noteq> 0" "0 < x" using assms overflow_pos by auto
  have "overflow \<le> \<bar>x\<bar>" using assms by linarith
  then have "(2::rat) powi 1024 \<le> \<bar>x\<bar>" by (simp only: overflow_powi)
  then have i: "1024 \<le> ilog2 \<bar>x\<bar>" by (rule ilog2_ge)
  then have q: "quantum x = ilog2 \<bar>x\<bar> - 52" unfolding quantum_def by linarith
  from x0 have "0 < \<bar>x\<bar>" by simp
  from ilog2_bounds[OF this] x0 have le: "2 powi (ilog2 \<bar>x\<bar>) \<le> x" by simp
  have p: "(2::rat) powi (ilog2 \<bar>x\<bar>) = of_int (2 ^ 52) * 2 powi quantum x"
    using pow_multiple[of "quantum x" "ilog2 \<bar>x\<bar>"] q by simp
  from rnd_ge_multiple[of "2 ^ 52" x] le p have "2 powi (ilog2 \<bar>x\<bar>) \<le> rnd x" by simp
  moreover have "(2::rat) powi 1024 \<le> 2 powi (ilog2 \<bar>x\<bar>)" using i by (simp only: two_powi_le_iff)
  ultimately show ?thesis by (simp only: overflow_powi)
qed

lemma rnd_big_neg:
  assumes "x \<le> - overflow"
  shows "rnd x \<le> - overflow"
  using rnd_big[of "- x"] assms by (simp add: rnd_neg)

lemma ilog2_twice:
  assumes "0 < x"
  shows "ilog2 (2 * x) = ilog2 x + 1"
proof (rule ilog2_unique)
  from ilog2_bounds[OF assms] show "2 powi (ilog2 x + 1) \<le> 2 * x" "2 * x < 2 powi (ilog2 x + 1 + 1)"
    by (simp_all only: two_powi_Suc) linarith+
qed

lemma double_twice:
  assumes "is_double b" "\<bar>2 * b\<bar> < overflow"
  shows "is_double (2 * b)"
proof (cases "b = 0")
  case True
  then show ?thesis using overflow_pos by (simp add: is_double_iff)
next
  case False
  from double_repr[OF assms(1)] obtain m where m: "b = of_int m * 2 powi quantum b" ..
  have "ilog2 \<bar>2 * b\<bar> = ilog2 \<bar>b\<bar> + 1"
    using ilog2_twice[of "\<bar>b\<bar>"] False by (simp add: abs_mult)
  then have q: "quantum (2 * b) \<le> quantum b + 1"
    unfolding quantum_def by linarith
  have "2 * b = of_int m * 2 powi (quantum b + 1)"
    using m by (simp add: two_powi_Suc)
  from multiple_coarser[OF this q] obtain m' where "2 * b = of_int m' * 2 powi quantum (2 * b)" ..
  from rnd_multiple[OF this] assms(2) show ?thesis by (simp add: is_double_iff)
qed

lemma rnd_nonneg: "0 \<le> x \<Longrightarrow> 0 \<le> rnd x"
  using rnd_ge_multiple[of 0 x] by simp

lemma rnd_nonpos: "x \<le> 0 \<Longrightarrow> rnd x \<le> 0"
  using rnd_le_multiple[of x 0] by simp

lemma rne_Fin: "rne x = Fin s \<Longrightarrow> s = rnd x \<and> \<bar>s\<bar> < overflow"
  using overflow_pos by (auto simp: rne_def split: if_splits)

lemma rne_le_double:
  assumes "is_double b" "x \<le> b" "rne x = Fin s"
  shows "s \<le> b"
  using rne_Fin[OF assms(3)] rnd_le_double[OF assms(1,2)] by simp

lemma rne_ge_double:
  assumes "is_double a" "a \<le> x" "rne x = Fin s"
  shows "a \<le> s"
  using rne_Fin[OF assms(3)] rnd_ge_double[OF assms(1,2)] by simp

lemma sum_le_twice:
  assumes "is_double b" "x \<le> 2 * b" "rne x = Fin s"
  shows "s \<le> 2 * b"
proof (cases "\<bar>2 * b\<bar> < overflow")
  case True
  from double_twice[OF assms(1) True] assms(2,3) show ?thesis by (rule rne_le_double)
next
  case False
  from rne_Fin[OF assms(3)] have s: "s = rnd x" "\<bar>s\<bar> < overflow" by blast+
  show ?thesis
  proof (cases "0 \<le> b")
    case True
    with False have "overflow \<le> 2 * b" by simp
    with s(2) show ?thesis by linarith
  next
    case neg: False
    with False have "2 * b \<le> - overflow" by simp
    with assms(2) have "x \<le> - overflow" by simp
    from rnd_big_neg[OF this] s show ?thesis by linarith
  qed
qed

lemma sum_ge_twice:
  assumes "is_double a" "2 * a \<le> x" "rne x = Fin s"
  shows "2 * a \<le> s"
proof -
  have "rne (- x) = Fin (- s)"
    using rne_Fin[OF assms(3)] overflow_pos assms(3)
    by (auto simp: rne_def rnd_neg split: if_splits)
  from sum_le_twice[of "- a" "- x" "- s"] this assms(1,2) show ?thesis
    by (simp add: is_double_neg)
qed

lemma rne_between:
  assumes "is_double a" "is_double b" "a \<le> x" "x \<le> b"
  shows "\<exists>c. rne x = Fin c \<and> a \<le> c \<and> c \<le> b"
proof -
  from rnd_ge_double[OF assms(1,3)] rnd_le_double[OF assms(2,4)]
  have r: "a \<le> rnd x" "rnd x \<le> b" .
  from assms(1,2) have "\<bar>a\<bar> < overflow" "\<bar>b\<bar> < overflow" by (simp_all add: is_double_iff)
  with r have "\<bar>rnd x\<bar> < overflow" by linarith
  then have "rne x = Fin (rnd x)" by (simp add: rne_def)
  with r show ?thesis by simp
qed

text \<open>The average of two binary64 numbers whose sum is finite.\<close>

lemma average_between:
  assumes "is_double a" "is_double b" "a \<le> b"
    and "fdiv (fadd (Fin a) (Fin b)) (Fin 2) = Fin c"
  shows "a \<le> c \<and> c \<le> b"
proof -
  from assms(4) obtain s where s: "rne (a + b) = Fin s" and c: "rne (s / 2) = Fin c"
    by (cases "rne (a + b)") (auto split: if_splits)
  have "a + b \<le> 2 * b" "2 * a \<le> a + b" using assms(3) by simp_all
  from sum_le_twice[OF assms(2) this(1) s] sum_ge_twice[OF assms(1) this(2) s]
  have "a \<le> s / 2" "s / 2 \<le> b" by simp_all
  from rne_between[OF assms(1,2) this] c show ?thesis by simp
qed

lemma average_equal:
  assumes "is_double a" and "fdiv (fadd (Fin a) (Fin a)) (Fin 2) = Fin c"
  shows "c = a"
  using average_between[OF assms(1) assms(1) _ assms(2)] by simp

text \<open>
  C9. In every row of the table, \<^verbatim>\<open>avgtemp\<close> is the float quotient by two of the float
  sum of the two readings. When the readings are finite binary64 numbers and \<^verbatim>\<open>avgtemp\<close>
  is finite (the sum has not overflowed), it lies between the smaller and the larger
  reading, and it equals them when they are equal.
\<close>

theorem avgtemp_bounds:
  assumes "build_flt_table fs flt_list = Inr flt_table"
    and "r \<in> set flt_table"
    and "mdecodt1 r = Fin a" and "mdecodt2 r = Fin b"
    and "is_double a" and "is_double b"
    and "avgtemp r = Fin c"
  shows "avgtemp r = fdiv (fadd (mdecodt1 r) (mdecodt2 r)) (Fin 2) \<and>
         min a b \<le> c \<and> c \<le> max a b \<and> (a = b \<longrightarrow> c = a)"
proof -
  from for_each_add_rows[OF assms(1)[unfolded build_flt_table_def]]
  have all2: "list_all2 (\<lambda>f r. file r = f \<and>
     (\<exists>d t. fits_getval fs f ''DATE-OBS'' 0 = Inr (Str d) \<and>
            fits_getval fs f ''TIME-OBS'' 0 = Inr (Str t) \<and>
            start r = d @ ''T'' @ t) \<and>
     fits_getval fs f ''FILTER1'' 0 = Inr (filter1 r) \<and>
     fits_getval fs f ''MDECODT1'' 1 = Inr (Num (mdecodt1 r)) \<and>
     fits_getval fs f ''MDECODT2'' 1 = Inr (Num (mdecodt2 r)) \<and>
     avgtemp r = fdiv (fadd (mdecodt1 r) (mdecodt2 r)) (Fin 2)) flt_list flt_table"
    by simp
  from assms(2) obtain i where i: "i < length flt_table" "flt_table ! i = r"
    by (auto simp: in_set_conv_nth)
  from all2 have "length flt_list = length flt_table" by (rule list_all2_lengthD)
  with i list_all2_nthD[OF all2, of i]
  have avg: "avgtemp r = fdiv (fadd (mdecodt1 r) (mdecodt2 r)) (Fin 2)" by simp
  with assms(3,4,7) have c: "fdiv (fadd (Fin a) (Fin b)) (Fin 2) = Fin c" by simp
  have sym: "fadd (Fin b) (Fin a) = fadd (Fin a) (Fin b)" by (simp add: add.commute)
  have "min a b \<le> c \<and> c \<le> max a b"
  proof (cases "a \<le> b")
    case True
    from average_between[OF assms(5,6) True c] True show ?thesis by simp
  next
    case False
    then have "b \<le> a" by simp
    from average_between[OF assms(6,5) this] c sym \<open>b \<le> a\<close> show ?thesis by simp
  qed
  moreover have "c = a" if "a = b"
    using average_equal[OF assms(5)] c that by simp
  ultimately show ?thesis using avg by blast
qed

theorem avgtemp_bounds_witness:
  "build_flt_table example_disk [''jcmc11ctq_flt.fits''] = Inr [example_row] \<and>
   mdecodt1 example_row = Fin 20 \<and> mdecodt2 example_row = Fin 30 \<and>
   is_double 20 \<and> is_double 30 \<and> avgtemp example_row = Fin 25 \<and>
   min 20 30 \<le> (25::rat) \<and> (25::rat) \<le> max 20 30"
proof -
  have r: "example_row \<in> set [example_row]" by simp
  have m: "mdecodt1 example_row = Fin 20" "mdecodt2 example_row = Fin 30"
    "avgtemp example_row = Fin 25"
    by (simp_all add: example_row_def)
  have d: "is_double 20" "is_double 30" by code_simp+
  from avgtemp_bounds[OF example_build r m(1,2) d m(3)]
  have "min 20 30 \<le> (25::rat) \<and> (25::rat) \<le> max 20 30" by blast
  with example_build m d show ?thesis by blast
qed

text \<open>
  Two readings of \<open>2 ^ 1023\<close>, a binary64 number: their sum overflows, and the row
  that the loop builds has an infinite average, above both readings.
\<close>

lemma pow1023: "example_hot + example_hot = overflow"
  by (simp add: overflow_def example_hot_def)

lemma double_hot: "is_double example_hot"
proof -
  have a: "\<bar>example_hot\<bar> = 2 powi 1023" by (simp add: example_hot_def)
  have "ilog2 \<bar>example_hot\<bar> = 1023"
    unfolding a
    apply (rule ilog2_unique)
     apply (rule order_refl)
    apply (subst two_powi_less_iff)
    apply simp
    done
  then have q: "quantum example_hot = 971" by (simp add: quantum_def)
  have "(2::rat) powi 1023 = of_int (2 ^ 52) * 2 powi quantum example_hot"
    unfolding q using pow_multiple[of 971 1023] by simp
  then have "example_hot = of_int (2 ^ 52) * 2 powi quantum example_hot"
    using a by (simp add: example_hot_def)
  from rnd_multiple[OF this] have "rnd example_hot = example_hot" .
  moreover have "\<bar>example_hot\<bar> < overflow" by (simp add: overflow_def example_hot_def)
  ultimately show ?thesis by (simp add: is_double_iff)
qed

lemma overflowing_sum: "fadd (Fin example_hot) (Fin example_hot) = PInf"
proof -
  have "overflow \<le> rnd overflow" by (rule rnd_big) simp
  then have "overflow \<le> \<bar>rnd overflow\<bar>" by linarith
  then have "rne overflow = PInf" using overflow_pos by (simp add: rne_def)
  then show ?thesis by (simp only: fadd.simps pow1023)
qed

lemma rne_twice_hot: "rne (2 * example_hot) = PInf"
  using overflowing_sum by simp

lemma example_hot_build:
  "build_flt_table example_hot_disk [''jcmc11e6q_flt.fits''] = Inr [example_hot_row]"
  by (simp add: build_flt_table_def add_flt_row_def fits_getval_def fits_open_def resolve_def
      example_hot_disk_def example_hot_flt_def example_flt_def example_hot_row_def
      upper_def upper_char_def names_dir_def basename_def new_row_def call_def rne_twice_hot)

theorem avgtemp_bounds_counterexample:
  "is_double example_hot \<and>
   build_flt_table example_hot_disk [''jcmc11e6q_flt.fits''] = Inr [example_hot_row] \<and>
   mdecodt1 example_hot_row = Fin example_hot \<and>
   mdecodt2 example_hot_row = Fin example_hot \<and>
   avgtemp example_hot_row = PInf \<and>
   \<not> fle (avgtemp example_hot_row) (Fin (max example_hot example_hot))"
  using double_hot example_hot_build by (simp add: example_hot_row_def)

section \<open>What the table depends on\<close>

lemma for_each_cong:
  "(\<And>x s. x \<in> set xs \<Longrightarrow> body s x = body' s x) \<Longrightarrow> for_each body xs s = for_each body' xs s"
  by (induction xs arbitrary: s) (auto split: sum.splits)

text \<open>
  C6. The table that the loop builds is a function of the list of files and of the five
  header cards read for each file of the list: two disks that agree on these cards give
  the same table, or stop on the same exception with the same rows, whatever else they
  hold. The row is computed from the values read by \<open>new_row\<close>, a function of its
  arguments alone.
\<close>

theorem table_determined_by_cards:
  fixes fs :: "'p disk" and fs' :: "'q disk"
  assumes "\<forall>f\<in>set flt_list.
      fits_getval fs f ''FILTER1'' 0 = fits_getval fs' f ''FILTER1'' 0 \<and>
      fits_getval fs f ''DATE-OBS'' 0 = fits_getval fs' f ''DATE-OBS'' 0 \<and>
      fits_getval fs f ''TIME-OBS'' 0 = fits_getval fs' f ''TIME-OBS'' 0 \<and>
      fits_getval fs f ''MDECODT1'' 1 = fits_getval fs' f ''MDECODT1'' 1 \<and>
      fits_getval fs f ''MDECODT2'' 1 = fits_getval fs' f ''MDECODT2'' 1"
  shows "build_flt_table fs flt_list = build_flt_table fs' flt_list"
proof -
  have "add_flt_row fs tbl f = add_flt_row fs' tbl f" if "f \<in> set flt_list" for f tbl
  proof -
    from assms that have
      "fits_getval fs f ''FILTER1'' 0 = fits_getval fs' f ''FILTER1'' 0"
      "fits_getval fs f ''DATE-OBS'' 0 = fits_getval fs' f ''DATE-OBS'' 0"
      "fits_getval fs f ''TIME-OBS'' 0 = fits_getval fs' f ''TIME-OBS'' 0"
      "fits_getval fs f ''MDECODT1'' 1 = fits_getval fs' f ''MDECODT1'' 1"
      "fits_getval fs f ''MDECODT2'' 1 = fits_getval fs' f ''MDECODT2'' 1"
      by blast+
    then show ?thesis by (simp only: add_flt_row_def)
  qed
  then show ?thesis
    unfolding build_flt_table_def by (rule for_each_cong)
qed

theorem table_determined_by_cards_witness:
  "fits_getval example_disk ''jcmc11ctq_flt.fits'' ''FILTER1'' 0
     = fits_getval example_other_disk ''jcmc11ctq_flt.fits'' ''FILTER1'' 0 \<and>
   fits_getdata_ext example_disk ''jcmc11ctq_flt.fits'' 1
     \<noteq> fits_getdata_ext example_other_disk ''jcmc11ctq_flt.fits'' 1 \<and>
   build_flt_table example_disk [''jcmc11ctq_flt.fits'']
     = build_flt_table example_other_disk [''jcmc11ctq_flt.fits'']"
proof -
  have cards: "\<forall>f\<in>set [''jcmc11ctq_flt.fits''].
      fits_getval example_disk f ''FILTER1'' 0 = fits_getval example_other_disk f ''FILTER1'' 0 \<and>
      fits_getval example_disk f ''DATE-OBS'' 0 = fits_getval example_other_disk f ''DATE-OBS'' 0 \<and>
      fits_getval example_disk f ''TIME-OBS'' 0 = fits_getval example_other_disk f ''TIME-OBS'' 0 \<and>
      fits_getval example_disk f ''MDECODT1'' 1 = fits_getval example_other_disk f ''MDECODT1'' 1 \<and>
      fits_getval example_disk f ''MDECODT2'' 1 = fits_getval example_other_disk f ''MDECODT2'' 1"
    by code_simp
  have differ: "fits_getdata_ext example_disk ''jcmc11ctq_flt.fits'' 1
     \<noteq> fits_getdata_ext example_other_disk ''jcmc11ctq_flt.fits'' 1"
    by code_simp
  from table_determined_by_cards[OF cards] cards differ show ?thesis by simp
qed

theorem self_contained_counterexample:
  "new_row ''jcmc11ctq_flt.fits'' (Str ''F165LP'') (Str ''2015-06-01'') (Str ''12:00:00'')
       (Num (Fin 20)) (Num (Fin 30))
     = Inr (''jcmc11ctq_flt.fits'', Str ''2015-06-01T12:00:00'', Str ''F165LP'',
            Num (Fin 20), Num (Fin 30), Num (Fin 25)) \<and>
   fits_getdata_ext example_disk ''jcmc11ctq_flt.fits'' 1
     \<noteq> fits_getdata_ext example_other_disk ''jcmc11ctq_flt.fits'' 1 \<and>
   build_flt_table example_disk [''jcmc11ctq_flt.fits''] = Inr [example_row] \<and>
   build_flt_table example_other_disk [''jcmc11ctq_flt.fits''] = Inr [example_row]"
  by code_simp

end
